theory Spec2Isabelle
  imports Complex_Main
begin

section \<open>SupaSimpleSocket: a shallow embedding of \<open>src/index.ts\<close>\<close>

text \<open>
  The development follows the source file class by class: \<open>ConnectionManager\<close>,
  \<open>EventBus\<close> and \<open>SupaSocket\<close>. JavaScript runs every callback to completion on one
  thread, so each method and each transport or timer callback is a function from the
  state before to the state after. What the code does to the outside (publishing an event,
  calling a user callback, using the transport, arming a timer) is appended to a trace.

  Modelling conventions:
  \<^item> a JavaScript \<open>number\<close> is a rational (\<open>NaN\<close> and the infinities are outside the
    model). Comparisons, \<open>Math.min\<close> and \<open>||\<close> are exact on doubles. The two operations of
    the code that round, \<open>Math.pow\<close> and the product in \<open>performReconnect\<close>, belong to the
    platform. Counters that the code only increments from zero are naturals;
  \<^item> an option that may be \<open>undefined\<close> is an \<open>option\<close>, and \<open>x || d\<close> is written out;
  \<^item> a user callback is known by what it does when called: it returns or it throws.
    Callbacks do not call back into the object that is running them;
  \<^item> \<open>JSON.parse\<close>, \<open>JSON.stringify\<close>, the \<open>WebSocket\<close> constructor and
    \<open>WebSocket.send\<close> belong to the platform and are parameters (\<open>platform\<close>);
  \<^item> the debug \<open>log\<close> calls are left out.
\<close>

subsection \<open>Values\<close>

datatype outcome = Returns | Throws

datatype ConnectionState = CONNECTING | OPEN | CLOSING | CLOSED | RECONNECTING

text \<open>The \<open>readyState\<close> of a platform \<open>WebSocket\<close>.\<close>

datatype readyState = WS_CONNECTING | WS_OPEN | WS_CLOSING | WS_CLOSED

text \<open>
  JavaScript values as far as the code inspects them. \<open>JBlob t bs\<close> is a \<open>Blob\<close> of MIME
  type \<open>t\<close>, \<open>JArrayBuffer bs\<close> an \<open>ArrayBuffer\<close>, \<open>JBigInt n\<close> the \<open>bigint\<close> \<open>n\<close>. Objects are
  association lists in property order; \<open>map_of\<close> reads them.
\<close>

datatype jsval =
    JUndefined
  | JNull
  | JBool bool
  | JNum rat
  | JStr string
  | JArr "jsval list"
  | JObj "(string \<times> jsval) list"
  | JArrayBuffer "nat list"
  | JBlob string "nat list"
  | JBigInt int

text \<open>\<open>!v\<close> is \<open>\<not> truthy v\<close>.\<close>

fun truthy :: "jsval \<Rightarrow> bool" where
  "truthy JUndefined = False"
| "truthy JNull = False"
| "truthy (JBool b) = b"
| "truthy (JNum n) = (n \<noteq> 0)"
| "truthy (JStr s) = (s \<noteq> [])"
| "truthy (JBigInt n) = (n \<noteq> 0)"
| "truthy _ = True"

text \<open>\<open>typeof v === 'object'\<close> (which holds of \<open>null\<close>) and \<open>typeof v === 'string'\<close>.\<close>

fun typeof_object :: "jsval \<Rightarrow> bool" where
  "typeof_object JNull = True"
| "typeof_object (JArr _) = True"
| "typeof_object (JObj _) = True"
| "typeof_object (JArrayBuffer _) = True"
| "typeof_object (JBlob _ _) = True"
| "typeof_object _ = False"

fun typeof_string :: "jsval \<Rightarrow> bool" where
  "typeof_string (JStr _) = True"
| "typeof_string _ = False"

text \<open>\<open>x || d\<close> on an optional number: \<open>undefined\<close> and \<open>0\<close> are falsy.\<close>

definition js_or :: "rat option \<Rightarrow> rat \<Rightarrow> rat" where
  "js_or x d = (case x of None \<Rightarrow> d | Some v \<Rightarrow> if v = 0 then d else v)"

text \<open>The condition \<open>x && x > 0\<close> on an optional number.\<close>

definition positive :: "rat option \<Rightarrow> bool" where
  "positive x = (case x of None \<Rightarrow> False | Some v \<Rightarrow> v \<noteq> 0 \<and> v > 0)"

text \<open>The name of an array index as a property key: the number in decimal.\<close>

definition digit :: "nat \<Rightarrow> char" where
  "digit d = char_of (d + 48)"

fun decimal :: "nat \<Rightarrow> string" where
  "decimal n = (if n div 10 = 0 then [digit n] else decimal (n div 10) @ [digit (n mod 10)])"

declare decimal.simps [simp del]

definition index_keys :: "nat \<Rightarrow> string list" where
  "index_keys n = map decimal [0..<n]"

datatype exn = TypeError | OtherError

text \<open>
  \<open>v[key]\<close>. Reading a property of \<open>undefined\<close> or \<open>null\<close> throws a \<open>TypeError\<close>. Only data
  properties are modelled: the members a value inherits from its prototype are functions,
  which no value of \<open>jsval\<close> stands for, and reading them gives \<open>JUndefined\<close> here.
\<close>

fun get_prop :: "jsval \<Rightarrow> string \<Rightarrow> exn + jsval" where
  "get_prop JUndefined k = Inl TypeError"
| "get_prop JNull k = Inl TypeError"
| "get_prop (JBool b) k = Inr JUndefined"
| "get_prop (JNum n) k = Inr JUndefined"
| "get_prop (JBigInt n) k = Inr JUndefined"
| "get_prop (JStr s) k =
     (if k = ''length'' then Inr (JNum (of_nat (length s)))
      else case map_of (zip (index_keys (length s)) s) k of
             Some c \<Rightarrow> Inr (JStr [c]) | None \<Rightarrow> Inr JUndefined)"
| "get_prop (JArr xs) k =
     (if k = ''length'' then Inr (JNum (of_nat (length xs)))
      else case map_of (zip (index_keys (length xs)) xs) k of
             Some x \<Rightarrow> Inr x | None \<Rightarrow> Inr JUndefined)"
| "get_prop (JObj kvs) k =
     (case map_of kvs k of Some x \<Rightarrow> Inr x | None \<Rightarrow> Inr JUndefined)"
| "get_prop (JArrayBuffer bs) k =
     (if k = ''byteLength'' then Inr (JNum (of_nat (length bs))) else Inr JUndefined)"
| "get_prop (JBlob t bs) k =
     (if k = ''size'' then Inr (JNum (of_nat (length bs)))
      else if k = ''type'' then Inr (JStr t) else Inr JUndefined)"

text \<open>\<open>Object.keys(v)\<close> for a value with \<open>typeof v === 'object'\<close>.\<close>

fun object_keys :: "jsval \<Rightarrow> string list" where
  "object_keys (JObj kvs) = remdups (map fst kvs)"
| "object_keys (JArr xs) = index_keys (length xs)"
| "object_keys _ = []"

text \<open>
  \<open>a === b\<close> where \<open>a\<close> was read from an inbound payload and \<open>b\<close> from the configuration.
  Primitive values are compared by value. Objects, arrays, blobs and buffers are compared
  by reference, and what an inbound payload holds was allocated when the frame arrived, so
  it is never the same reference as a configured value.
\<close>

fun strict_eq :: "jsval \<Rightarrow> jsval \<Rightarrow> bool" where
  "strict_eq JUndefined JUndefined = True"
| "strict_eq JNull JNull = True"
| "strict_eq (JBool a) (JBool b) = (a = b)"
| "strict_eq (JNum a) (JNum b) = (a = b)"
| "strict_eq (JStr a) (JStr b) = (a = b)"
| "strict_eq (JBigInt a) (JBigInt b) = (a = b)"
| "strict_eq _ _ = False"

subsection \<open>\<open>class ConnectionManager\<close>\<close>

text \<open>
  A status callback is a function reference (its identity, a number) together with what
  it does when called with \<open>(newState, oldState)\<close>. The log records each call and each
  \<open>console.error\<close> of the \<open>catch\<close> block.
\<close>

type_synonym StatusChangeCallback = "nat \<times> (ConnectionState \<Rightarrow> ConnectionState \<Rightarrow> outcome)"

datatype cm_event =
    Invoked nat ConnectionState ConnectionState
  | ConsoleError nat

record ConnectionManager =
  cm_state :: ConnectionState
  statusChangeCallbacks :: "StatusChangeCallback list"

definition new_ConnectionManager :: ConnectionManager where
  "new_ConnectionManager = \<lparr>cm_state = CLOSED, statusChangeCallbacks = []\<rparr>"

text \<open>\<open>callback(newState, oldState)\<close>: the call is logged, then the callback returns or throws.\<close>

definition call_status ::
  "StatusChangeCallback \<Rightarrow> ConnectionState \<Rightarrow> ConnectionState \<Rightarrow> cm_event list
     \<Rightarrow> outcome \<times> cm_event list" where
  "call_status cb n old w = (snd cb n old, w @ [Invoked (fst cb) n old])"

text \<open>\<open>try { callback(newState, oldState) } catch (error) { console.error(...) }\<close>\<close>

definition try_status ::
  "StatusChangeCallback \<Rightarrow> ConnectionState \<Rightarrow> ConnectionState \<Rightarrow> cm_event list
     \<Rightarrow> outcome \<times> cm_event list" where
  "try_status cb n old w =
     (case call_status cb n old w of
        (Throws, w') \<Rightarrow> (Returns, w' @ [ConsoleError (fst cb)])
      | (Returns, w') \<Rightarrow> (Returns, w'))"

text \<open>
  \<open>statusChangeCallbacks.forEach(...)\<close>: were the body to throw, the loop would stop and
  the exception would leave the setter.
\<close>

fun forEach_status ::
  "StatusChangeCallback list \<Rightarrow> ConnectionState \<Rightarrow> ConnectionState \<Rightarrow> cm_event list
     \<Rightarrow> outcome \<times> cm_event list" where
  "forEach_status [] n old w = (Returns, w)"
| "forEach_status (cb # cbs) n old w =
     (case try_status cb n old w of
        (Throws, w') \<Rightarrow> (Throws, w')
      | (Returns, w') \<Rightarrow> forEach_status cbs n old w')"

text \<open>\<open>set state(newState)\<close>\<close>

definition set_state ::
  "ConnectionState \<Rightarrow> ConnectionManager \<Rightarrow> cm_event list
     \<Rightarrow> outcome \<times> ConnectionManager \<times> cm_event list" where
  "set_state newState m w =
     (if cm_state m = newState then (Returns, m, w)
      else
        let oldState = cm_state m;
            m' = m\<lparr>cm_state := newState\<rparr>
        in case forEach_status (statusChangeCallbacks m') newState oldState w of
             (r, w') \<Rightarrow> (r, m', w'))"

definition onStatusChange_cm :: "StatusChangeCallback \<Rightarrow> ConnectionManager \<Rightarrow> ConnectionManager" where
  "onStatusChange_cm cb m = m\<lparr>statusChangeCallbacks := statusChangeCallbacks m @ [cb]\<rparr>"

definition removeStatusChangeCallback :: "nat \<Rightarrow> ConnectionManager \<Rightarrow> ConnectionManager" where
  "removeStatusChangeCallback ident m =
     m\<lparr>statusChangeCallbacks := filter (\<lambda>cb. fst cb \<noteq> ident) (statusChangeCallbacks m)\<rparr>"

fun is_Invoked :: "cm_event \<Rightarrow> bool" where
  "is_Invoked (Invoked _ _ _) = True"
| "is_Invoked (ConsoleError _) = False"

subsection \<open>\<open>class EventBus\<close> and \<open>SupaSocket.once\<close>\<close>

text \<open>
  A registered callback is either a function the user passed (\<open>User i\<close>, the reference
  \<open>i\<close>) or the closure \<open>onceCallback\<close> that \<open>once\<close> builds: \<open>OnceCallback w event i\<close> is the
  closure with reference \<open>w\<close> that captured \<open>event\<close> and the user's \<open>callback\<close> \<open>i\<close>.
  \<open>behaviour i data\<close> says what the user's function \<open>i\<close> does when called with \<open>data\<close>.
\<close>

datatype EventCallback = User nat | OnceCallback nat string nat

datatype bus_event =
    Called nat jsval
  | BusConsoleError string

record EventBus =
  events :: "string \<rightharpoonup> EventCallback list"
  next_ref :: nat
  bus_log :: "bus_event list"

definition new_EventBus :: EventBus where
  "new_EventBus = \<lparr>events = Map.empty, next_ref = 0, bus_log = []\<rparr>"

text \<open>\<open>on(event, callback)\<close>\<close>

definition EventBus_on :: "string \<Rightarrow> EventCallback \<Rightarrow> EventBus \<Rightarrow> EventBus" where
  "EventBus_on event callback b =
     (let cbs = (case events b event of None \<Rightarrow> [] | Some cs \<Rightarrow> cs)
      in b\<lparr>events := (events b)(event \<mapsto> cbs @ [callback])\<rparr>)"

text \<open>\<open>off(event, callback?)\<close>\<close>

definition EventBus_off :: "string \<Rightarrow> EventCallback option \<Rightarrow> EventBus \<Rightarrow> EventBus" where
  "EventBus_off event callback b =
     (case events b event of
        None \<Rightarrow> b
      | Some callbacks \<Rightarrow>
          (case callback of
             None \<Rightarrow> b\<lparr>events := (events b)(event := None)\<rparr>
           | Some c \<Rightarrow>
               let kept = filter (\<lambda>cb. cb \<noteq> c) callbacks
               in if kept = [] then b\<lparr>events := (events b)(event := None)\<rparr>
                  else b\<lparr>events := (events b)(event \<mapsto> kept)\<rparr>))"

text \<open>Calling the user's function \<open>i\<close> with \<open>data\<close>.\<close>

definition call_user ::
  "(nat \<Rightarrow> jsval \<Rightarrow> outcome) \<Rightarrow> nat \<Rightarrow> jsval \<Rightarrow> EventBus \<Rightarrow> outcome \<times> EventBus" where
  "call_user behaviour i data b = (behaviour i data, b\<lparr>bus_log := bus_log b @ [Called i data]\<rparr>)"

text \<open>
  Calling a registered callback. The body of \<open>onceCallback\<close> is
  \<open>callback(data); this.off(event, onceCallback)\<close>: when \<open>callback\<close> throws, \<open>off\<close> is not
  reached.
\<close>

fun invoke ::
  "(nat \<Rightarrow> jsval \<Rightarrow> outcome) \<Rightarrow> EventCallback \<Rightarrow> jsval \<Rightarrow> EventBus \<Rightarrow> outcome \<times> EventBus" where
  "invoke behaviour (User i) data b = call_user behaviour i data b"
| "invoke behaviour (OnceCallback w event i) data b =
     (case call_user behaviour i data b of
        (Throws, b') \<Rightarrow> (Throws, b')
      | (Returns, b') \<Rightarrow> (Returns, EventBus_off event (Some (OnceCallback w event i)) b'))"

text \<open>\<open>try { callback(data) } catch (error) { console.error(...) }\<close>\<close>

definition try_invoke ::
  "(nat \<Rightarrow> jsval \<Rightarrow> outcome) \<Rightarrow> string \<Rightarrow> EventCallback \<Rightarrow> jsval \<Rightarrow> EventBus
     \<Rightarrow> outcome \<times> EventBus" where
  "try_invoke behaviour event cb data b =
     (case invoke behaviour cb data b of
        (Throws, b') \<Rightarrow> (Returns, b'\<lparr>bus_log := bus_log b' @ [BusConsoleError event]\<rparr>)
      | (Returns, b') \<Rightarrow> (Returns, b'))"

text \<open>
  \<open>callbacks.forEach(...)\<close> walks the array that \<open>emit\<close> read from the map; \<open>off\<close> stores a
  new array and leaves that one as it is.
\<close>

fun forEach_emit ::
  "(nat \<Rightarrow> jsval \<Rightarrow> outcome) \<Rightarrow> string \<Rightarrow> EventCallback list \<Rightarrow> jsval \<Rightarrow> EventBus
     \<Rightarrow> outcome \<times> EventBus" where
  "forEach_emit behaviour event [] data b = (Returns, b)"
| "forEach_emit behaviour event (cb # cbs) data b =
     (case try_invoke behaviour event cb data b of
        (Throws, b') \<Rightarrow> (Throws, b')
      | (Returns, b') \<Rightarrow> forEach_emit behaviour event cbs data b')"

text \<open>\<open>emit(event, data)\<close>\<close>

definition EventBus_emit ::
  "(nat \<Rightarrow> jsval \<Rightarrow> outcome) \<Rightarrow> string \<Rightarrow> jsval \<Rightarrow> EventBus \<Rightarrow> outcome \<times> EventBus" where
  "EventBus_emit behaviour event data b =
     (case events b event of
        None \<Rightarrow> (Returns, b)
      | Some callbacks \<Rightarrow> forEach_emit behaviour event callbacks data b)"

definition hasListeners :: "string \<Rightarrow> EventBus \<Rightarrow> bool" where
  "hasListeners event b = (case events b event of None \<Rightarrow> False | Some cs \<Rightarrow> length cs > 0)"

text \<open>
  \<open>SupaSocket.once(event, callback)\<close>: allocates the closure and registers it with \<open>on\<close>.
\<close>

definition once :: "string \<Rightarrow> nat \<Rightarrow> EventBus \<Rightarrow> EventBus" where
  "once event callback b =
     EventBus_on event (OnceCallback (next_ref b) event callback) (b\<lparr>next_ref := next_ref b + 1\<rparr>)"

text \<open>Publishing the same event several times in a row, as one tick can.\<close>

fun emit_times ::
  "(nat \<Rightarrow> jsval \<Rightarrow> outcome) \<Rightarrow> string \<Rightarrow> jsval list \<Rightarrow> EventBus \<Rightarrow> EventBus" where
  "emit_times behaviour event [] b = b"
| "emit_times behaviour event (d # ds) b =
     emit_times behaviour event ds (snd (EventBus_emit behaviour event d b))"

text \<open>How often the user's function \<open>i\<close> was called.\<close>

definition calls_of :: "nat \<Rightarrow> EventBus \<Rightarrow> nat" where
  "calls_of i b = length (filter (\<lambda>e. case e of Called j _ \<Rightarrow> j = i | _ \<Rightarrow> False) (bus_log b))"

subsection \<open>\<open>class SupaSocket\<close>: configuration, platform, state\<close>

text \<open>
  \<open>SupaSocketOptions\<close> after the constructor merged the defaults. A numeric option can
  still be \<open>undefined\<close> when the caller passed it so. The three event callbacks receive the
  platform's event object, which the code does not look at, so each is known by its
  outcome alone.
\<close>

record SupaSocketOptions =
  url :: string
  reconnectLimit :: "rat option"
  reconnectInterval :: "rat option"
  heartbeatInterval :: "rat option"
  heartbeatTimeout :: "rat option"
  autoReconnect :: bool
  pingMessage :: jsval
  pongMessage :: jsval
  autoParseMessage :: bool
  maxReconnectDelay :: "rat option"
  retryOnError :: bool
  connectionTimeout :: "rat option"
  onOpen :: "outcome option"
  onClose :: "outcome option"
  onError :: "outcome option"
  onStatusChange :: "(ConnectionState \<Rightarrow> ConnectionState \<Rightarrow> outcome) option"

text \<open>The defaults of the constructor, for a given \<open>url\<close>.\<close>

definition default_options :: "string \<Rightarrow> SupaSocketOptions" where
  "default_options u =
     \<lparr>url = u, reconnectLimit = Some 5, reconnectInterval = Some 5000,
      heartbeatInterval = Some 30000, heartbeatTimeout = Some 5000, autoReconnect = True,
      pingMessage = JObj [(''type'', JStr ''ping''), (''time'', JNum 0)],
      pongMessage = JObj [(''type'', JStr ''pong'')],
      autoParseMessage = True, maxReconnectDelay = Some 30000, retryOnError = True,
      connectionTimeout = Some 10000,
      onOpen = None, onClose = None, onError = None, onStatusChange = None\<rparr>"

text \<open>
  The platform: \<open>JSON.parse\<close> (\<open>None\<close> when it throws), \<open>JSON.stringify\<close> (\<open>None\<close> when it
  throws, as it does on a \<open>bigint\<close>; it returns a string or \<open>undefined\<close>), whether \<open>new WebSocket(url, protocols)\<close> throws,
  and whether \<open>ws.send(message)\<close> throws. \<open>Math_pow b n\<close> is the double that \<open>Math.pow(b, n)\<close>
  returns and \<open>multiply a b\<close> the double that \<open>a * b\<close> evaluates to: both round, and
  ECMAScript leaves the precision of \<open>Math.pow\<close> to the implementation.
\<close>

record platform =
  JSON_parse :: "string \<Rightarrow> jsval option"
  JSON_stringify :: "jsval \<Rightarrow> jsval option"
  WebSocket_throws :: "string \<Rightarrow> bool"
  ws_send_throws :: "jsval \<Rightarrow> bool"
  Math_pow :: "rat \<Rightarrow> nat \<Rightarrow> rat"
  multiply :: "rat \<Rightarrow> rat \<Rightarrow> rat"

text \<open>What \<open>eventBus.emit\<close> is called with.\<close>

datatype publication =
    Open_event
  | Close_event
  | Error_event
  | Message jsval
  | Dynamic jsval jsval
  | StatusChange ConnectionState ConnectionState
  | ConnectionTimeout "rat option"
  | HeartbeatTimeout nat
  | ReconnectFailed nat "rat option"
  | Reconnecting nat "rat option" rat
  | SendError jsval
  | MessageError
  | InitError

text \<open>The first argument of \<open>emit\<close>; the last three publications go out under \<open>'error'\<close>.\<close>

fun event_name :: "publication \<Rightarrow> jsval" where
  "event_name Open_event = JStr ''open''"
| "event_name Close_event = JStr ''close''"
| "event_name Error_event = JStr ''error''"
| "event_name (Message d) = JStr ''message''"
| "event_name (Dynamic t d) = t"
| "event_name (StatusChange n old) = JStr ''statusChange''"
| "event_name (ConnectionTimeout t) = JStr ''connectionTimeout''"
| "event_name (HeartbeatTimeout t) = JStr ''heartbeatTimeout''"
| "event_name (ReconnectFailed a l) = JStr ''reconnectFailed''"
| "event_name (Reconnecting a l d) = JStr ''reconnecting''"
| "event_name (SendError d) = JStr ''error''"
| "event_name MessageError = JStr ''error''"
| "event_name InitError = JStr ''error''"

datatype timer_name = HeartbeatTimer | HeartbeatTimeoutTimer | ConnectionTimeoutTimer | ReconnectTimer

datatype action =
    Publish publication
  | CallOnOpen
  | CallOnClose
  | CallOnError
  | CallOnStatusChange ConnectionState ConnectionState
  | Uncaught
  | NewWebSocket string
  | WsClose
  | WsSend jsval
  | SetTimer timer_name rat
  | ClearTimer timer_name
  | ClearAllListeners

text \<open>
  A timer field holds a handle once a timer was armed. The handle is \<open>Pending\<close> until the
  timer fires or is cleared; the code does not always reset the field then, and what it
  holds is \<open>Stale\<close>.
\<close>

datatype timer = Pending | Stale

text \<open>
  The fields of \<open>SupaSocket\<close>. \<open>ws\<close> is the \<open>readyState\<close> of the transport the object holds,
  \<open>state\<close> the \<open>_state\<close> of its \<open>ConnectionManager\<close>, \<open>reconnectTimers\<close> the number of
  \<open>setTimeout(() => this.connect(), delay)\<close> timers that have not fired (the code keeps no
  handle to them).
\<close>

record SupaSocket =
  options :: SupaSocketOptions
  ws :: "readyState option"
  reconnectCount :: nat
  heartbeatTimer :: "timer option"
  heartbeatTimeoutTimer :: "timer option"
  connectionTimeoutTimer :: "timer option"
  state :: ConnectionState
  messageQueue :: "jsval list"
  lastMessageTime :: nat
  explicitClose :: bool
  currentBackoff :: nat
  reconnectTimers :: nat
  trace :: "action list"

definition act :: "action \<Rightarrow> SupaSocket \<Rightarrow> SupaSocket" where
  "act a s = s\<lparr>trace := trace s @ [a]\<rparr>"

text \<open>\<open>this.eventBus.emit(name, payload)\<close>\<close>

definition emit :: "publication \<Rightarrow> SupaSocket \<Rightarrow> SupaSocket" where
  "emit p s = act (Publish p) s"

text \<open>
  The one status callback the constructor registers: it calls \<open>options.onStatusChange\<close> when
  there is one, then publishes \<open>statusChange\<close>.
\<close>

definition status_callback ::
  "ConnectionState \<Rightarrow> ConnectionState \<Rightarrow> SupaSocket \<Rightarrow> outcome \<times> SupaSocket" where
  "status_callback n old s =
     (case onStatusChange (options s) of
        None \<Rightarrow> (Returns, emit (StatusChange n old) s)
      | Some f \<Rightarrow>
          (case f n old of
             Throws \<Rightarrow> (Throws, act (CallOnStatusChange n old) s)
           | Returns \<Rightarrow> (Returns, emit (StatusChange n old) (act (CallOnStatusChange n old) s))))"

text \<open>
  \<open>this.connectionManager.state = n\<close>: the setter of \<open>ConnectionManager\<close> with that one
  callback registered; its \<open>try/catch\<close> drops the outcome.
\<close>

definition set_connection_state :: "ConnectionState \<Rightarrow> SupaSocket \<Rightarrow> SupaSocket" where
  "set_connection_state n s =
     (if state s = n then s else snd (status_callback n (state s) (s\<lparr>state := n\<rparr>)))"

definition isConnected :: "SupaSocket \<Rightarrow> bool" where
  "isConnected s = (state s = OPEN)"

text \<open>\<open>ws.close()\<close> on the transport held: an open or opening transport starts closing.\<close>

definition ws_close :: "SupaSocket \<Rightarrow> SupaSocket" where
  "ws_close s =
     act WsClose
       (s\<lparr>ws := map_option (\<lambda>r. if r = WS_CONNECTING \<or> r = WS_OPEN then WS_CLOSING else r) (ws s)\<rparr>)"

text \<open>\<open>if (this.connectionTimeoutTimer) { clearTimeout(...); this.connectionTimeoutTimer = null }\<close>\<close>

definition clearConnectionTimeout :: "SupaSocket \<Rightarrow> SupaSocket" where
  "clearConnectionTimeout s =
     (case connectionTimeoutTimer s of
        None \<Rightarrow> s
      | Some t \<Rightarrow> act (ClearTimer ConnectionTimeoutTimer) (s\<lparr>connectionTimeoutTimer := None\<rparr>))"

definition resetHeartbeatTimeout :: "SupaSocket \<Rightarrow> SupaSocket" where
  "resetHeartbeatTimeout s =
     (case heartbeatTimeoutTimer s of
        None \<Rightarrow> s
      | Some t \<Rightarrow> act (ClearTimer HeartbeatTimeoutTimer) (s\<lparr>heartbeatTimeoutTimer := None\<rparr>))"

definition clearHeartbeatTimers :: "SupaSocket \<Rightarrow> SupaSocket" where
  "clearHeartbeatTimers s =
     (let s1 = (case heartbeatTimer s of
                  None \<Rightarrow> s
                | Some t \<Rightarrow> act (ClearTimer HeartbeatTimer) (s\<lparr>heartbeatTimer := None\<rparr>))
      in resetHeartbeatTimeout s1)"

subsection \<open>Reconnection\<close>

text \<open>
  The delay that \<open>performReconnect\<close> computes from the options and \<open>currentBackoff\<close>:
  \<open>delay * Math.pow(1.5, this.currentBackoff)\<close> is the platform's product of \<open>delay\<close> and the
  platform's power of the double \<open>1.5\<close>, which is \<open>3/2\<close>.
\<close>

definition reconnect_delay :: "platform \<Rightarrow> SupaSocketOptions \<Rightarrow> nat \<Rightarrow> rat" where
  "reconnect_delay P opts backoff =
     (let delay = js_or (reconnectInterval opts) 5000
      in if backoff > 0
         then min (js_or (maxReconnectDelay opts) 30000)
                (multiply P delay (Math_pow P (3 / 2) backoff))
         else delay)"

definition performReconnect :: "platform \<Rightarrow> SupaSocket \<Rightarrow> SupaSocket" where
  "performReconnect P s =
     (let opts = options s in
      if of_nat (reconnectCount s) \<ge> js_or (reconnectLimit opts) 5 then
        emit (ReconnectFailed (reconnectCount s) (reconnectLimit opts)) s
      else
        let s1 = set_connection_state RECONNECTING s;
            s2 = s1\<lparr>reconnectCount := reconnectCount s1 + 1\<rparr>;
            delay = reconnect_delay P opts (currentBackoff s2);
            s3 = s2\<lparr>currentBackoff := currentBackoff s2 + 1\<rparr>;
            s4 = emit (Reconnecting (reconnectCount s3) (reconnectLimit opts) delay) s3
        in act (SetTimer ReconnectTimer delay) (s4\<lparr>reconnectTimers := reconnectTimers s4 + 1\<rparr>))"

definition handleConnectionFailure :: "platform \<Rightarrow> SupaSocket \<Rightarrow> SupaSocket" where
  "handleConnectionFailure P s =
     (let s1 = s\<lparr>ws := None\<rparr>
      in if autoReconnect (options s1) then performReconnect P s1
         else set_connection_state CLOSED s1)"

text \<open>
  \<open>connect()\<close>. The handlers it installs are the functions \<open>onopen\<close>, \<open>onmessage\<close>,
  \<open>onclose\<close>, \<open>onerror\<close> and \<open>connection_timeout\<close> below.
\<close>

definition connect :: "platform \<Rightarrow> SupaSocket \<Rightarrow> SupaSocket" where
  "connect P s =
     (let s1 = clearConnectionTimeout s;
          s2 = set_connection_state CONNECTING s1;
          s3 = s2\<lparr>explicitClose := False\<rparr>
      in if WebSocket_throws P (url (options s3)) then
           (let s4 = set_connection_state CLOSED s3;
                s5 = emit InitError s4
            in if autoReconnect (options s5) then performReconnect P s5 else s5)
         else
           (let s4 = act (NewWebSocket (url (options s3))) (s3\<lparr>ws := Some WS_CONNECTING\<rparr>)
            in if positive (connectionTimeout (options s4))
               then act (SetTimer ConnectionTimeoutTimer (the (connectionTimeout (options s4))))
                      (s4\<lparr>connectionTimeoutTimer := Some Pending\<rparr>)
               else s4))"

text \<open>The callback of the connection timeout timer.\<close>

definition connection_timeout :: "platform \<Rightarrow> SupaSocket \<Rightarrow> SupaSocket" where
  "connection_timeout P s =
     (let s1 = emit (ConnectionTimeout (connectionTimeout (options s))) s
      in if ws s1 = Some WS_CONNECTING then handleConnectionFailure P (ws_close s1) else s1)"

subsection \<open>Sending\<close>

definition prepareMessage :: "platform \<Rightarrow> jsval \<Rightarrow> exn + jsval" where
  "prepareMessage P data =
     (case data of
        JStr str \<Rightarrow> Inr data
      | JArrayBuffer bs \<Rightarrow> Inr data
      | JBlob t bs \<Rightarrow> Inr data
      | _ \<Rightarrow> (case JSON_stringify P data of None \<Rightarrow> Inl OtherError | Some m \<Rightarrow> Inr m))"

definition send :: "platform \<Rightarrow> jsval \<Rightarrow> SupaSocket \<Rightarrow> bool \<times> SupaSocket" where
  "send P data s =
     (if ws s = Some WS_OPEN then
        (case prepareMessage P data of
           Inl e \<Rightarrow> (False, emit (SendError data) s)
         | Inr message \<Rightarrow>
             if ws_send_throws P message then (False, emit (SendError data) s)
             else (True, act (WsSend message) s))
      else if state s = CONNECTING \<or> state s = RECONNECTING then
        (True, s\<lparr>messageQueue := messageQueue s @ [data]\<rparr>)
      else (False, emit (SendError data) s))"

text \<open>
  \<open>this.messageQueue.forEach(msg => this.send(msg))\<close>: \<open>forEach\<close> visits the elements the
  array had when the loop began.
\<close>

fun forEach_send :: "platform \<Rightarrow> jsval list \<Rightarrow> SupaSocket \<Rightarrow> SupaSocket" where
  "forEach_send P [] s = s"
| "forEach_send P (msg # msgs) s = forEach_send P msgs (snd (send P msg s))"

definition processMessageQueue :: "platform \<Rightarrow> SupaSocket \<Rightarrow> SupaSocket" where
  "processMessageQueue P s =
     (if length (messageQueue s) > 0
      then (forEach_send P (messageQueue s) s)\<lparr>messageQueue := []\<rparr>
      else s)"

subsection \<open>Heartbeat\<close>

definition startHeartbeatTimeout :: "SupaSocket \<Rightarrow> SupaSocket" where
  "startHeartbeatTimeout s =
     (let s1 = (case heartbeatTimeoutTimer s of
                  None \<Rightarrow> s
                | Some t \<Rightarrow> act (ClearTimer HeartbeatTimeoutTimer) (s\<lparr>heartbeatTimeoutTimer := Some Stale\<rparr>))
      in if \<not> positive (heartbeatTimeout (options s1)) then s1
         else act (SetTimer HeartbeatTimeoutTimer (the (heartbeatTimeout (options s1))))
                (s1\<lparr>heartbeatTimeoutTimer := Some Pending\<rparr>))"

definition startHeartbeat :: "SupaSocket \<Rightarrow> SupaSocket" where
  "startHeartbeat s =
     (let s1 = clearHeartbeatTimers s
      in if \<not> positive (heartbeatInterval (options s1)) then s1
         else act (SetTimer HeartbeatTimer (the (heartbeatInterval (options s1))))
                (s1\<lparr>heartbeatTimer := Some Pending\<rparr>))"

text \<open>\<open>{ ...pingMessage, time: Date.now() }\<close>: the own properties, then \<open>time\<close>.\<close>

fun own_entries :: "jsval \<Rightarrow> (string \<times> jsval) list" where
  "own_entries (JObj kvs) = kvs"
| "own_entries (JArr xs) = zip (index_keys (length xs)) xs"
| "own_entries _ = []"

fun set_prop :: "string \<Rightarrow> jsval \<Rightarrow> (string \<times> jsval) list \<Rightarrow> (string \<times> jsval) list" where
  "set_prop k v [] = [(k, v)]"
| "set_prop k v ((k', v') # kvs) =
     (if k = k' then (k, v) # kvs else (k', v') # set_prop k v kvs)"

definition ping_payload :: "jsval \<Rightarrow> nat \<Rightarrow> jsval" where
  "ping_payload ping now =
     (if typeof_object ping \<and> ping \<noteq> JNull
      then JObj (set_prop ''time'' (JNum (of_nat now)) (own_entries ping))
      else ping)"

text \<open>The callback of the heartbeat interval timer; \<open>now\<close> is \<open>Date.now()\<close>.\<close>

definition heartbeat_tick :: "platform \<Rightarrow> nat \<Rightarrow> SupaSocket \<Rightarrow> SupaSocket" where
  "heartbeat_tick P now s =
     (let s1 = snd (send P (ping_payload (pingMessage (options s)) now) s)
      in startHeartbeatTimeout s1)"

text \<open>The callback of the heartbeat timeout timer.\<close>

definition heartbeat_timeout :: "platform \<Rightarrow> nat \<Rightarrow> SupaSocket \<Rightarrow> SupaSocket" where
  "heartbeat_timeout P now s =
     (let s1 = emit (HeartbeatTimeout now) s;
          s2 = (case ws s1 of None \<Rightarrow> s1 | Some r \<Rightarrow> ws_close s1)
      in if autoReconnect (options s2) then performReconnect P s2 else s2)"

subsection \<open>Inbound messages\<close>

text \<open>
  \<open>Object.keys(pongMessage).every(key => data[key] !== undefined && data[key] === pongMessage[key])\<close>
\<close>

fun every_key :: "jsval \<Rightarrow> jsval \<Rightarrow> string list \<Rightarrow> exn + bool" where
  "every_key data pong [] = Inr True"
| "every_key data pong (key # keys) =
     (case get_prop data key of
        Inl e \<Rightarrow> Inl e
      | Inr v \<Rightarrow>
          if v \<noteq> JUndefined \<and> (case get_prop pong key of Inl e \<Rightarrow> False | Inr pv \<Rightarrow> strict_eq v pv)
          then every_key data pong keys
          else Inr False)"

definition isPongMessage :: "platform \<Rightarrow> SupaSocketOptions \<Rightarrow> jsval \<Rightarrow> exn + bool" where
  "isPongMessage P opts data0 =
     (if \<not> truthy data0 then Inr False
      else
        case (case data0 of JStr str \<Rightarrow> JSON_parse P str | _ \<Rightarrow> Some data0) of
          None \<Rightarrow> Inr False
        | Some data \<Rightarrow>
            let pong = pongMessage opts
            in if truthy pong \<and> typeof_object pong
               then every_key data pong (object_keys pong)
               else Inr (truthy data \<and> typeof_object data \<and>
                         (case get_prop data ''type'' of
                            Inl e \<Rightarrow> False
                          | Inr t \<Rightarrow> strict_eq t (JStr ''pong''))))"

text \<open>
  \<open>event.data\<close> of a message event: the text of a text frame, or the bytes of a binary frame
  as a \<open>Blob\<close> (whose type is empty) or an \<open>ArrayBuffer\<close>, as \<open>binaryType\<close> says.
\<close>

datatype frame = TextFrame string | BlobFrame "nat list" | BufferFrame "nat list"

fun frame_data :: "frame \<Rightarrow> jsval" where
  "frame_data (TextFrame str) = JStr str"
| "frame_data (BlobFrame bs) = JBlob [] bs"
| "frame_data (BufferFrame bs) = JArrayBuffer bs"

text \<open>The payload after \<open>if (autoParseMessage && typeof data === 'string') try JSON.parse\<close>.\<close>

definition inbound_payload :: "platform \<Rightarrow> SupaSocketOptions \<Rightarrow> frame \<Rightarrow> jsval" where
  "inbound_payload P opts f =
     (case frame_data f of
        JStr str \<Rightarrow>
          (if autoParseMessage opts
           then (case JSON_parse P str of None \<Rightarrow> JStr str | Some v \<Rightarrow> v)
           else JStr str)
      | d \<Rightarrow> d)"

definition onmessage :: "platform \<Rightarrow> frame \<Rightarrow> nat \<Rightarrow> SupaSocket \<Rightarrow> SupaSocket" where
  "onmessage P f now s =
     (let s1 = s\<lparr>lastMessageTime := now\<rparr>;
          data = inbound_payload P (options s1) f
      in case isPongMessage P (options s1) data of
           Inl e \<Rightarrow> emit MessageError s1
         | Inr True \<Rightarrow> resetHeartbeatTimeout s1
         | Inr False \<Rightarrow>
             (let s2 = emit (Message data) s1
              in if truthy data \<and> typeof_object data then
                   (case get_prop data ''type'' of
                      Inl e \<Rightarrow> emit MessageError s2
                    | Inr t \<Rightarrow> if truthy t then emit (Dynamic t data) s2 else s2)
                 else s2))"

subsection \<open>Transport callbacks\<close>

definition onopen :: "platform \<Rightarrow> SupaSocket \<Rightarrow> SupaSocket" where
  "onopen P s =
     (let s1 = clearConnectionTimeout s;
          s2 = set_connection_state OPEN s1;
          s3 = s2\<lparr>reconnectCount := 0, currentBackoff := 0\<rparr>;
          s4 = processMessageQueue P s3;
          s5 = startHeartbeat s4
      in case onOpen (options s5) of
           None \<Rightarrow> emit Open_event s5
         | Some Returns \<Rightarrow> emit Open_event (act CallOnOpen s5)
         | Some Throws \<Rightarrow> act Uncaught (act CallOnOpen s5))"

definition after_close :: "platform \<Rightarrow> SupaSocket \<Rightarrow> SupaSocket" where
  "after_close P s =
     (let s1 = emit Close_event s
      in if \<not> explicitClose s1 \<and> autoReconnect (options s1) then performReconnect P s1 else s1)"

definition onclose :: "platform \<Rightarrow> SupaSocket \<Rightarrow> SupaSocket" where
  "onclose P s =
     (let s1 = clearConnectionTimeout s;
          s2 = set_connection_state CLOSED s1;
          s3 = clearHeartbeatTimers s2
      in case onClose (options s3) of
           None \<Rightarrow> after_close P s3
         | Some Returns \<Rightarrow> after_close P (act CallOnClose s3)
         | Some Throws \<Rightarrow> act Uncaught (act CallOnClose s3))"

definition after_error :: "platform \<Rightarrow> SupaSocket \<Rightarrow> SupaSocket" where
  "after_error P s =
     (let s1 = emit Error_event s
      in if ws s1 = Some WS_CONNECTING \<and> retryOnError (options s1)
         then handleConnectionFailure P s1 else s1)"

definition onerror :: "platform \<Rightarrow> SupaSocket \<Rightarrow> SupaSocket" where
  "onerror P s =
     (case onError (options s) of
        None \<Rightarrow> after_error P s
      | Some Returns \<Rightarrow> after_error P (act CallOnError s)
      | Some Throws \<Rightarrow> act Uncaught (act CallOnError s))"

subsection \<open>Public methods\<close>

text \<open>
  \<open>close(code, reason)\<close>; \<open>rejected\<close> says that the platform's \<open>ws.close(code, reason)\<close>
  throws (a code it does not accept), which the method catches.
\<close>

definition close :: "bool \<Rightarrow> SupaSocket \<Rightarrow> SupaSocket" where
  "close rejected s =
     (let s1 = s\<lparr>explicitClose := True\<rparr>;
          s2 = (case ws s1 of
                  None \<Rightarrow> s1
                | Some r \<Rightarrow>
                    (let s1a = clearHeartbeatTimers (set_connection_state CLOSING s1)
                     in if rejected then s1a else ws_close s1a))
      in set_connection_state CLOSED s2)"

definition reconnect :: "platform \<Rightarrow> bool \<Rightarrow> SupaSocket \<Rightarrow> bool \<times> SupaSocket" where
  "reconnect P resetReconnectCount s =
     (let s1 = (case ws s of None \<Rightarrow> s | Some r \<Rightarrow> ws_close s);
          s2 = (if resetReconnectCount then s1\<lparr>reconnectCount := 0, currentBackoff := 0\<rparr> else s1);
          s3 = s2\<lparr>explicitClose := False\<rparr>
      in (True, connect P s3))"

definition checkConnection :: "platform \<Rightarrow> SupaSocket \<Rightarrow> ConnectionState \<times> SupaSocket" where
  "checkConnection P s =
     (let st = state s
      in if st = CLOSED \<and> \<not> explicitClose s \<and> autoReconnect (options s)
         then (st, performReconnect P s)
         else (st, s))"

text \<open>
  \<open>updateOptions(options)\<close>: the merge \<open>{ ...this.options, ...options }\<close> is given by what it
  does to the configuration, the function \<open>merge\<close>.
\<close>

definition updateOptions ::
  "platform \<Rightarrow> (SupaSocketOptions \<Rightarrow> SupaSocketOptions) \<Rightarrow> SupaSocket \<Rightarrow> SupaSocket" where
  "updateOptions P merge s =
     (let oldUrl = url (options s);
          s1 = s\<lparr>options := merge (options s)\<rparr>;
          s2 = (if oldUrl \<noteq> url (options s1) \<and> isConnected s1
                then snd (reconnect P True s1) else s1)
      in if isConnected s2 \<and> heartbeatTimer s2 \<noteq> None then startHeartbeat s2 else s2)"

definition disableAutoReconnect :: "SupaSocket \<Rightarrow> SupaSocket" where
  "disableAutoReconnect s = s\<lparr>options := (options s)\<lparr>autoReconnect := False\<rparr>\<rparr>"

definition enableAutoReconnect :: "SupaSocket \<Rightarrow> SupaSocket" where
  "enableAutoReconnect s = s\<lparr>options := (options s)\<lparr>autoReconnect := True\<rparr>\<rparr>"

definition destroy :: "SupaSocket \<Rightarrow> SupaSocket" where
  "destroy s =
     (let s1 = (case ws s of None \<Rightarrow> s | Some r \<Rightarrow> (ws_close s)\<lparr>ws := None\<rparr>);
          s2 = clearHeartbeatTimers s1;
          s3 = clearConnectionTimeout s2;
          s4 = act ClearAllListeners s3;
          s5 = set_connection_state CLOSED s4
      in s5\<lparr>messageQueue := []\<rparr>)"

text \<open>The constructor: the field initialisers, then \<open>this.connect()\<close>.\<close>

definition fresh :: "SupaSocketOptions \<Rightarrow> SupaSocket" where
  "fresh opts =
     \<lparr>options = opts, ws = None, reconnectCount = 0, heartbeatTimer = None,
      heartbeatTimeoutTimer = None, connectionTimeoutTimer = None, state = CLOSED,
      messageQueue = [], lastMessageTime = 0, explicitClose = False, currentBackoff = 0,
      reconnectTimers = 0, trace = []\<rparr>"

definition new_SupaSocket :: "platform \<Rightarrow> SupaSocketOptions \<Rightarrow> SupaSocket" where
  "new_SupaSocket P opts = connect P (fresh opts)"

subsection \<open>Sequences of operations\<close>

text \<open>
  What can happen to a \<open>SupaSocket\<close>: the platform moves the transport it holds to another
  \<open>readyState\<close>, it delivers a transport event, a timer fires, or the owner calls a method.
  A timer fires only while it is pending. The model does not say in which order or when
  these happen: every sequence is admitted.
\<close>

datatype operation =
    TransportReadyState readyState
  | TransportOpen
  | TransportMessage frame nat
  | TransportClose
  | TransportError
  | ConnectionTimeoutFires
  | HeartbeatIntervalFires nat
  | HeartbeatTimeoutFires nat
  | ReconnectTimerFires
  | Send jsval
  | Close bool
  | Reconnect bool
  | CheckConnection
  | UpdateOptions "SupaSocketOptions \<Rightarrow> SupaSocketOptions"
  | DisableAutoReconnect
  | EnableAutoReconnect
  | Destroy

fun step :: "platform \<Rightarrow> operation \<Rightarrow> SupaSocket \<Rightarrow> SupaSocket" where
  "step P (TransportReadyState r) s = s\<lparr>ws := map_option (\<lambda>x. r) (ws s)\<rparr>"
| "step P TransportOpen s = onopen P s"
| "step P (TransportMessage f now) s = onmessage P f now s"
| "step P TransportClose s = onclose P s"
| "step P TransportError s = onerror P s"
| "step P ConnectionTimeoutFires s =
     (if connectionTimeoutTimer s = Some Pending
      then connection_timeout P (s\<lparr>connectionTimeoutTimer := Some Stale\<rparr>) else s)"
| "step P (HeartbeatIntervalFires now) s =
     (if heartbeatTimer s = Some Pending then heartbeat_tick P now s else s)"
| "step P (HeartbeatTimeoutFires now) s =
     (if heartbeatTimeoutTimer s = Some Pending
      then heartbeat_timeout P now (s\<lparr>heartbeatTimeoutTimer := Some Stale\<rparr>) else s)"
| "step P ReconnectTimerFires s =
     (if reconnectTimers s > 0
      then connect P (s\<lparr>reconnectTimers := reconnectTimers s - 1\<rparr>) else s)"
| "step P (Send data) s = snd (send P data s)"
| "step P (Close rejected) s = close rejected s"
| "step P (Reconnect r) s = snd (reconnect P r s)"
| "step P CheckConnection s = snd (checkConnection P s)"
| "step P (UpdateOptions merge) s = updateOptions P merge s"
| "step P DisableAutoReconnect s = disableAutoReconnect s"
| "step P EnableAutoReconnect s = enableAutoReconnect s"
| "step P Destroy s = destroy s"

fun exec :: "platform \<Rightarrow> operation list \<Rightarrow> SupaSocket \<Rightarrow> SupaSocket" where
  "exec P [] s = s"
| "exec P (x # xs) s = exec P xs (step P x s)"

subsection \<open>Derived notions and concrete configurations\<close>

text \<open>Three status observers, the second of which throws.\<close>

definition three_observers :: ConnectionManager where
  "three_observers =
     \<lparr>cm_state = CLOSED,
      statusChangeCallbacks = [(0, \<lambda>n old. Returns), (1, \<lambda>n old. Throws), (2, \<lambda>n old. Returns)]\<rparr>"

text \<open>The delays of the \<open>reconnecting\<close> publications of a trace, in order.\<close>

fun published_delays :: "action list \<Rightarrow> rat list" where
  "published_delays [] = []"
| "published_delays (Publish (Reconnecting a l d) # t) = d # published_delays t"
| "published_delays (x # t) = published_delays t"

text \<open>The test at the head of \<open>performReconnect\<close>.\<close>

definition exhausted :: "SupaSocket \<Rightarrow> bool" where
  "exhausted s \<longleftrightarrow> of_nat (reconnectCount s) \<ge> js_or (reconnectLimit (options s)) 5"

text \<open>
  What an operation that is no reset does to the reconnect context: the state does not
  become \<open>OPEN\<close>, and either both counters stay or both grow by one.
\<close>

definition advance :: "SupaSocket \<Rightarrow> SupaSocket \<Rightarrow> bool" where
  "advance s s' \<longleftrightarrow>
     (state s' = OPEN \<longrightarrow> state s = OPEN) \<and>
     (reconnectCount s' = reconnectCount s \<and> currentBackoff s' = currentBackoff s
      \<or> reconnectCount s' = reconnectCount s + 1 \<and> currentBackoff s' = currentBackoff s + 1 \<and>
        state s' \<noteq> OPEN)"

text \<open>The delays published while the operations \<open>xs\<close> run from \<open>s\<close>.\<close>

definition run_delays :: "platform \<Rightarrow> operation list \<Rightarrow> SupaSocket \<Rightarrow> rat list" where
  "run_delays P xs s = drop (length (published_delays (trace s))) (published_delays (trace (exec P xs s)))"

text \<open>
  A platform for the examples: on the one JSON text and the two objects that the examples
  give it, it decodes and encodes as \<open>JSON\<close> does; no constructor or send throws. Its
  arithmetic is exact, as double arithmetic is on the numbers of the examples: the powers
  \<open>1.5 ^ n\<close> for \<open>n \<le> 4\<close> and their products with \<open>1000\<close>, \<open>5000\<close> and \<open>10000\<close> are doubles.
\<close>

definition demo_platform :: platform where
  \<open>demo_platform =
     \<lparr>JSON_parse =
        (\<lambda>str. if str = ''{"type":"pong"}'' then Some (JObj [(''type'', JStr ''pong'')]) else None),
      JSON_stringify =
        (\<lambda>v. if v = JObj [(''type'', JStr ''chat''), (''msg'', JStr ''hi'')]
               then Some (JStr ''{"type":"chat","msg":"hi"}'')
             else if v = JObj [(''type'', JStr ''ping''), (''time'', JNum 1000)]
               then Some (JStr ''{"type":"ping","time":1000}'')
             else None),
      WebSocket_throws = (\<lambda>u. False),
      ws_send_throws = (\<lambda>m. False),
      Math_pow = (\<lambda>b n. b ^ n),
      multiply = (\<lambda>a b. a * b)\<rparr>\<close>

text \<open>The same platform with a transport whose \<open>send\<close> throws.\<close>

definition refusing_platform :: platform where
  "refusing_platform = demo_platform\<lparr>ws_send_throws := (\<lambda>m. True)\<rparr>"

definition limit2_options :: SupaSocketOptions where
  "limit2_options = (default_options ''ws://host'')
     \<lparr>reconnectLimit := Some 2, reconnectInterval := Some 1000, maxReconnectDelay := Some 5000\<rparr>"

text \<open>The \<open>reconnecting\<close> and \<open>reconnectFailed\<close> publications of a trace, in order.\<close>

fun reconnect_publications :: "action list \<Rightarrow> publication list" where
  "reconnect_publications [] = []"
| "reconnect_publications (Publish (Reconnecting a l d) # t) = Reconnecting a l d # reconnect_publications t"
| "reconnect_publications (Publish (ReconnectFailed a l) # t) = ReconnectFailed a l # reconnect_publications t"
| "reconnect_publications (x # t) = reconnect_publications t"

text \<open>
  A connection that fails or drops: the transport goes to \<open>CLOSED\<close>, then its \<open>error\<close> and
  \<open>close\<close> events are delivered.
\<close>

definition failure :: "operation list" where
  "failure = [TransportReadyState WS_CLOSED, TransportError, TransportClose]"

definition three_failures :: SupaSocket where
  "three_failures =
     exec demo_platform (failure @ [ReconnectTimerFires] @ failure @ [ReconnectTimerFires] @ failure)
       (new_SupaSocket demo_platform limit2_options)"

text \<open>
  While the session state is \<open>OPEN\<close> both counters of the reconnect context are zero.
\<close>

definition open_means_reset :: "SupaSocket \<Rightarrow> bool" where
  "open_means_reset s \<longleftrightarrow> (state s = OPEN \<longrightarrow> reconnectCount s = 0 \<and> currentBackoff s = 0)"


definition interval1000_options :: SupaSocketOptions where
  "interval1000_options = (default_options ''ws://host'')
     \<lparr>reconnectInterval := Some 1000, maxReconnectDelay := Some 5000\<rparr>"

definition five_failures :: "operation list" where
  "five_failures =
     failure @ [ReconnectTimerFires] @ failure @ [ReconnectTimerFires] @ failure @
     [ReconnectTimerFires] @ failure @ [ReconnectTimerFires] @ failure"



text \<open>The socket of \<open>three_failures\<close> after its second failure.\<close>

definition after_two_failures :: SupaSocket where
  "after_two_failures =
     exec demo_platform (failure @ [ReconnectTimerFires] @ failure @ [ReconnectTimerFires])
       (new_SupaSocket demo_platform limit2_options)"

text \<open>A configuration with \<open>reconnectLimit: 0\<close>.\<close>

definition limit0_options :: SupaSocketOptions where
  "limit0_options = (default_options ''ws://host'')\<lparr>reconnectLimit := Some 0\<rparr>"

text \<open>With \<open>reconnectLimit: 0\<close>, after three failures and the third reconnect timer.\<close>

definition limit0_after_three_failures :: SupaSocket where
  "limit0_after_three_failures =
     exec demo_platform
       (failure @ [ReconnectTimerFires] @ failure @ [ReconnectTimerFires] @ failure @
        [ReconnectTimerFires])
       (new_SupaSocket demo_platform limit0_options)"

text \<open>
  A dropped connection that was not reconnected: auto-reconnect was off when the close
  event arrived and has been switched on since.
\<close>

definition dropped_connection :: SupaSocket where
  "dropped_connection =
     exec demo_platform ([DisableAutoReconnect] @ failure @ [EnableAutoReconnect])
       (new_SupaSocket demo_platform (default_options ''ws://host''))"

text \<open>\<open>data instanceof ArrayBuffer || data instanceof Blob\<close>\<close>

fun is_binary :: "jsval \<Rightarrow> bool" where
  "is_binary (JArrayBuffer bs) = True"
| "is_binary (JBlob t bs) = True"
| "is_binary _ = False"

text \<open>
  What an open transport is given for the payload \<open>data\<close>: the prepared message, or nothing
  when preparing it or \<open>ws.send\<close> throws.
\<close>

definition wire :: "platform \<Rightarrow> jsval \<Rightarrow> jsval option" where
  "wire P data =
     (case prepareMessage P data of
        Inl e \<Rightarrow> None
      | Inr message \<Rightarrow> if ws_send_throws P message then None else Some message)"

text \<open>The object of the scenario \<open>send {type: "chat", msg: "hi"}\<close>.\<close>

definition chat :: jsval where
  "chat = JObj [(''type'', JStr ''chat''), (''msg'', JStr ''hi'')]"

text \<open>A socket whose transport has opened, one that is still connecting, one that was closed.\<close>

definition open_socket :: SupaSocket where
  "open_socket =
     exec demo_platform [TransportReadyState WS_OPEN, TransportOpen]
       (new_SupaSocket demo_platform (default_options ''ws://host''))"

definition connecting_socket :: SupaSocket where
  "connecting_socket = new_SupaSocket demo_platform (default_options ''ws://host'')"

definition closed_socket :: SupaSocket where
  "closed_socket =
     exec demo_platform [TransportReadyState WS_OPEN, TransportOpen, Close False,
         TransportReadyState WS_CLOSED, TransportClose]
       (new_SupaSocket demo_platform (default_options ''ws://host''))"

text \<open>
  A socket on which \<open>close(code)\<close> was called with a code that the transport rejects:
  \<open>ws.close(code, reason)\<close> throws, the method catches it, and the transport stays open.
\<close>

definition closed_with_open_transport :: SupaSocket where
  "closed_with_open_transport =
     exec demo_platform [TransportReadyState WS_OPEN, TransportOpen, Close True]
       (new_SupaSocket demo_platform (default_options ''ws://host''))"

text \<open>
  A socket that was open, on which \<open>reconnect()\<close> was called and whose new transport has
  opened, when the close event of the former transport arrives.
\<close>

definition reconnecting_with_open_transport :: SupaSocket where
  "reconnecting_with_open_transport =
     exec demo_platform [TransportReadyState WS_OPEN, TransportOpen, Reconnect False,
         TransportReadyState WS_OPEN, TransportOpen, TransportClose]
       (new_SupaSocket demo_platform (default_options ''ws://host''))"

text \<open>The messages handed to the transport, in order.\<close>

fun transmitted :: "action list \<Rightarrow> jsval list" where
  "transmitted [] = []"
| "transmitted (WsSend m # t) = m # transmitted t"
| "transmitted (x # t) = transmitted t"

text \<open>What the payloads of a queue become on the wire: those that cannot be sent drop out.\<close>

fun wires :: "platform \<Rightarrow> jsval list \<Rightarrow> jsval list" where
  "wires P [] = []"
| "wires P (d # ds) = (case wire P d of None \<Rightarrow> wires P ds | Some m \<Rightarrow> m # wires P ds)"

text \<open>
  What sending the payloads of a queue over an open transport adds to the trace: for each
  payload, in order, its transmission or its send error.
\<close>

fun drain_actions :: "platform \<Rightarrow> jsval list \<Rightarrow> action list" where
  "drain_actions P [] = []"
| "drain_actions P (d # ds) =
     (case wire P d of None \<Rightarrow> Publish (SendError d) | Some m \<Rightarrow> WsSend m) # drain_actions P ds"

text \<open>
  The phases of a transport-open event: 0 for setting up the connection and the state
  transition, 1 for the queue drain, 2 for the heartbeat start, 3 for the \<open>onOpen\<close> callback
  and the \<open>open\<close> publication.
\<close>

fun onopen_phase :: "action \<Rightarrow> nat" where
  "onopen_phase (WsSend m) = 1"
| "onopen_phase (Publish (SendError d)) = 1"
| "onopen_phase (ClearTimer HeartbeatTimer) = 2"
| "onopen_phase (ClearTimer HeartbeatTimeoutTimer) = 2"
| "onopen_phase (SetTimer HeartbeatTimer t) = 2"
| "onopen_phase (SetTimer HeartbeatTimeoutTimer t) = 2"
| "onopen_phase CallOnOpen = 3"
| "onopen_phase (Publish Open_event) = 3"
| "onopen_phase Uncaught = 3"
| "onopen_phase _ = 0"

text \<open>The actions added to the trace between \<open>s\<close> and a later \<open>s'\<close>.\<close>

definition since :: "SupaSocket \<Rightarrow> SupaSocket \<Rightarrow> action list" where
  "since s s' = drop (length (trace s)) (trace s')"

text \<open>
  The payloads \<open>ps\<close> are sent, then the transport opens; in the second sequence the
  reconnect timer fires first and \<open>connect()\<close> creates the transport that opens.
\<close>

definition sends_then_open :: "jsval list \<Rightarrow> operation list" where
  "sends_then_open ps = map Send ps @ [TransportReadyState WS_OPEN, TransportOpen]"

definition sends_then_reconnect :: "jsval list \<Rightarrow> operation list" where
  "sends_then_reconnect ps =
     map Send ps @ [ReconnectTimerFires, TransportReadyState WS_OPEN, TransportOpen]"

text \<open>The queue does not change between \<open>s\<close> and \<open>s'\<close>, and \<open>s'\<close> adds only actions of phase \<open>k\<close>.\<close>

definition adds :: "nat \<Rightarrow> SupaSocket \<Rightarrow> SupaSocket \<Rightarrow> bool" where
  "adds k s s' \<longleftrightarrow>
     messageQueue s' = messageQueue s \<and> ws s' = ws s \<and> options s' = options s \<and>
     (\<exists>X. trace s' = trace s @ X \<and> (\<forall>a\<in>set X. onopen_phase a = k))"

text \<open>A socket that is waiting for its reconnect timer after a dropped connection.\<close>

definition reconnecting_socket :: SupaSocket where
  "reconnecting_socket =
     exec demo_platform failure (new_SupaSocket demo_platform (default_options ''ws://host''))"






text \<open>The \<open>message\<close> publications and the type-named publications of a trace.\<close>

fun message_publications :: "action list \<Rightarrow> publication list" where
  "message_publications [] = []"
| "message_publications (Publish (Message d) # t) = Message d # message_publications t"
| "message_publications (Publish (Dynamic n d) # t) = Dynamic n d # message_publications t"
| "message_publications (x # t) = message_publications t"




text \<open>A user callback that throws whenever it is called, and one that always returns.\<close>

definition throwing :: "nat \<Rightarrow> jsval \<Rightarrow> outcome" where
  "throwing i data = Throws"

definition returning :: "nat \<Rightarrow> jsval \<Rightarrow> outcome" where
  "returning i data = Returns"

section \<open>Properties\<close>

subsection \<open>Session state: the setter of \<open>ConnectionManager\<close>\<close>

lemma forEach_status_returns:
  "\<exists>w'. forEach_status cbs n old w = (Returns, w @ w') \<and>
        filter is_Invoked w' = map (\<lambda>cb. Invoked (fst cb) n old) cbs"
proof (induction cbs arbitrary: w)
  case Nil
  show ?case by simp
next
  case (Cons cb cbs)
  obtain u where u: "try_status cb n old w = (Returns, w @ u)"
    and fu: "filter is_Invoked u = [Invoked (fst cb) n old]"
    by (cases "snd cb n old") (auto simp: try_status_def call_status_def)
  from Cons.IH [of "w @ u"] obtain v where
    v: "forEach_status cbs n old (w @ u) = (Returns, (w @ u) @ v)"
    and fv: "filter is_Invoked v = map (\<lambda>cb. Invoked (fst cb) n old) cbs"
    by blast
  have "forEach_status (cb # cbs) n old w = (Returns, w @ (u @ v))"
    using u v by simp
  moreover have "filter is_Invoked (u @ v) = map (\<lambda>cb. Invoked (fst cb) n old) (cb # cbs)"
    using fu fv by simp
  ultimately show ?case by blast
qed

text \<open>
  Claim C6. \<open>set state(newState)\<close> with the current state changes nothing and calls no
  observer. With another state it stores the new state, returns normally whatever the
  observers do, and the calls it made are exactly one per registered observer, in
  registration order, each with \<open>(newState, oldState)\<close>.
\<close>

theorem set_state_notifies:
  "(cm_state m = n \<longrightarrow> set_state n m w = (Returns, m, w)) \<and>
   (cm_state m \<noteq> n \<longrightarrow>
      (\<exists>w'. set_state n m w = (Returns, m\<lparr>cm_state := n\<rparr>, w @ w') \<and>
            filter is_Invoked w' =
              map (\<lambda>cb. Invoked (fst cb) n (cm_state m)) (statusChangeCallbacks m)))"
proof (intro conjI impI)
  assume "cm_state m = n"
  then show "set_state n m w = (Returns, m, w)" by (simp add: set_state_def)
next
  assume neq: "cm_state m \<noteq> n"
  from forEach_status_returns [of "statusChangeCallbacks m" n "cm_state m" w]
  obtain w' where "forEach_status (statusChangeCallbacks m) n (cm_state m) w = (Returns, w @ w')"
    and "filter is_Invoked w' = map (\<lambda>cb. Invoked (fst cb) n (cm_state m)) (statusChangeCallbacks m)"
    by blast
  with neq show "\<exists>w'. set_state n m w = (Returns, m\<lparr>cm_state := n\<rparr>, w @ w') \<and>
            filter is_Invoked w' =
              map (\<lambda>cb. Invoked (fst cb) n (cm_state m)) (statusChangeCallbacks m)"
    by (simp add: set_state_def Let_def)
qed

text \<open>
  With three observers of which the second throws: setting the current state calls nobody;
  setting \<open>OPEN\<close> calls all three in order and logs the one exception.
\<close>

theorem set_state_notifies_witness:
  "set_state CLOSED three_observers [] = (Returns, three_observers, []) \<and>
   set_state OPEN three_observers [] =
     (Returns, three_observers\<lparr>cm_state := OPEN\<rparr>,
      [Invoked 0 OPEN CLOSED, Invoked 1 OPEN CLOSED, ConsoleError 1, Invoked 2 OPEN CLOSED])"
  using set_state_notifies [of three_observers CLOSED "[]"]
        set_state_notifies [of three_observers OPEN "[]"]
  by (simp add: three_observers_def set_state_def try_status_def call_status_def)

subsection \<open>What each function leaves as it is\<close>

lemma published_delays_append [simp]:
  "published_delays (t @ u) = published_delays t @ published_delays u"
  by (induction t rule: published_delays.induct) simp_all

lemma act_fields [simp]:
  "options (act a s) = options s" "ws (act a s) = ws s"
  "reconnectCount (act a s) = reconnectCount s" "currentBackoff (act a s) = currentBackoff s"
  "state (act a s) = state s" "messageQueue (act a s) = messageQueue s"
  "explicitClose (act a s) = explicitClose s" "reconnectTimers (act a s) = reconnectTimers s"
  "heartbeatTimer (act a s) = heartbeatTimer s"
  "heartbeatTimeoutTimer (act a s) = heartbeatTimeoutTimer s"
  "connectionTimeoutTimer (act a s) = connectionTimeoutTimer s"
  "lastMessageTime (act a s) = lastMessageTime s"
  "trace (act a s) = trace s @ [a]"
  by (simp_all add: act_def)

lemma emit_fields [simp]:
  "options (emit p s) = options s" "ws (emit p s) = ws s"
  "reconnectCount (emit p s) = reconnectCount s" "currentBackoff (emit p s) = currentBackoff s"
  "state (emit p s) = state s" "messageQueue (emit p s) = messageQueue s"
  "explicitClose (emit p s) = explicitClose s" "reconnectTimers (emit p s) = reconnectTimers s"
  "heartbeatTimer (emit p s) = heartbeatTimer s"
  "heartbeatTimeoutTimer (emit p s) = heartbeatTimeoutTimer s"
  "connectionTimeoutTimer (emit p s) = connectionTimeoutTimer s"
  "lastMessageTime (emit p s) = lastMessageTime s"
  "trace (emit p s) = trace s @ [Publish p]"
  by (simp_all add: emit_def)

lemma set_connection_state_fields [simp]:
  "options (set_connection_state n s) = options s" "ws (set_connection_state n s) = ws s"
  "reconnectCount (set_connection_state n s) = reconnectCount s"
  "currentBackoff (set_connection_state n s) = currentBackoff s"
  "state (set_connection_state n s) = n"
  "messageQueue (set_connection_state n s) = messageQueue s"
  "explicitClose (set_connection_state n s) = explicitClose s"
  "reconnectTimers (set_connection_state n s) = reconnectTimers s"
  "heartbeatTimer (set_connection_state n s) = heartbeatTimer s"
  "heartbeatTimeoutTimer (set_connection_state n s) = heartbeatTimeoutTimer s"
  "connectionTimeoutTimer (set_connection_state n s) = connectionTimeoutTimer s"
  "published_delays (trace (set_connection_state n s)) = published_delays (trace s)"
  by (auto simp: set_connection_state_def status_callback_def split: option.splits outcome.splits)

lemma ws_close_fields [simp]:
  "options (ws_close s) = options s" "reconnectCount (ws_close s) = reconnectCount s"
  "currentBackoff (ws_close s) = currentBackoff s" "state (ws_close s) = state s"
  "explicitClose (ws_close s) = explicitClose s"
  "published_delays (trace (ws_close s)) = published_delays (trace s)"
  by (simp_all add: ws_close_def)

lemma clearConnectionTimeout_fields [simp]:
  "options (clearConnectionTimeout s) = options s"
  "reconnectCount (clearConnectionTimeout s) = reconnectCount s"
  "currentBackoff (clearConnectionTimeout s) = currentBackoff s"
  "state (clearConnectionTimeout s) = state s"
  "explicitClose (clearConnectionTimeout s) = explicitClose s"
  "ws (clearConnectionTimeout s) = ws s"
  "messageQueue (clearConnectionTimeout s) = messageQueue s"
  "published_delays (trace (clearConnectionTimeout s)) = published_delays (trace s)"
  by (simp_all add: clearConnectionTimeout_def split: option.splits)

lemma resetHeartbeatTimeout_fields [simp]:
  "options (resetHeartbeatTimeout s) = options s"
  "reconnectCount (resetHeartbeatTimeout s) = reconnectCount s"
  "currentBackoff (resetHeartbeatTimeout s) = currentBackoff s"
  "state (resetHeartbeatTimeout s) = state s"
  "explicitClose (resetHeartbeatTimeout s) = explicitClose s"
  "ws (resetHeartbeatTimeout s) = ws s"
  "published_delays (trace (resetHeartbeatTimeout s)) = published_delays (trace s)"
  by (simp_all add: resetHeartbeatTimeout_def split: option.splits)

lemma clearHeartbeatTimers_fields [simp]:
  "options (clearHeartbeatTimers s) = options s"
  "reconnectCount (clearHeartbeatTimers s) = reconnectCount s"
  "currentBackoff (clearHeartbeatTimers s) = currentBackoff s"
  "state (clearHeartbeatTimers s) = state s"
  "explicitClose (clearHeartbeatTimers s) = explicitClose s"
  "ws (clearHeartbeatTimers s) = ws s"
  "published_delays (trace (clearHeartbeatTimers s)) = published_delays (trace s)"
  by (simp_all add: clearHeartbeatTimers_def split: option.splits)

lemma startHeartbeatTimeout_fields [simp]:
  "options (startHeartbeatTimeout s) = options s"
  "reconnectCount (startHeartbeatTimeout s) = reconnectCount s"
  "currentBackoff (startHeartbeatTimeout s) = currentBackoff s"
  "state (startHeartbeatTimeout s) = state s"
  "explicitClose (startHeartbeatTimeout s) = explicitClose s"
  "ws (startHeartbeatTimeout s) = ws s"
  "published_delays (trace (startHeartbeatTimeout s)) = published_delays (trace s)"
  by (simp_all add: startHeartbeatTimeout_def Let_def split: option.splits)

lemma startHeartbeat_fields [simp]:
  "options (startHeartbeat s) = options s"
  "reconnectCount (startHeartbeat s) = reconnectCount s"
  "currentBackoff (startHeartbeat s) = currentBackoff s"
  "state (startHeartbeat s) = state s"
  "explicitClose (startHeartbeat s) = explicitClose s"
  "ws (startHeartbeat s) = ws s"
  "published_delays (trace (startHeartbeat s)) = published_delays (trace s)"
  by (simp_all add: startHeartbeat_def Let_def)

lemma send_fields [simp]:
  "options (snd (send P d s)) = options s"
  "reconnectCount (snd (send P d s)) = reconnectCount s"
  "currentBackoff (snd (send P d s)) = currentBackoff s"
  "state (snd (send P d s)) = state s"
  "explicitClose (snd (send P d s)) = explicitClose s"
  "ws (snd (send P d s)) = ws s"
  "published_delays (trace (snd (send P d s))) = published_delays (trace s)"
  by (simp_all add: send_def split: sum.splits)

lemma forEach_send_fields [simp]:
  "options (forEach_send P q s) = options s"
  "reconnectCount (forEach_send P q s) = reconnectCount s"
  "currentBackoff (forEach_send P q s) = currentBackoff s"
  "state (forEach_send P q s) = state s"
  "explicitClose (forEach_send P q s) = explicitClose s"
  "ws (forEach_send P q s) = ws s"
  "published_delays (trace (forEach_send P q s)) = published_delays (trace s)"
  by (induction q arbitrary: s; simp)+

lemma processMessageQueue_fields [simp]:
  "options (processMessageQueue P s) = options s"
  "reconnectCount (processMessageQueue P s) = reconnectCount s"
  "currentBackoff (processMessageQueue P s) = currentBackoff s"
  "state (processMessageQueue P s) = state s"
  "explicitClose (processMessageQueue P s) = explicitClose s"
  "ws (processMessageQueue P s) = ws s"
  "published_delays (trace (processMessageQueue P s)) = published_delays (trace s)"
  by (simp_all add: processMessageQueue_def)

lemma performReconnect_fields [simp]:
  "options (performReconnect P s) = options s"
  "explicitClose (performReconnect P s) = explicitClose s"
  "reconnectCount (performReconnect P s) = (if exhausted s then reconnectCount s else reconnectCount s + 1)"
  "currentBackoff (performReconnect P s) = (if exhausted s then currentBackoff s else currentBackoff s + 1)"
  "state (performReconnect P s) = (if exhausted s then state s else RECONNECTING)"
  "published_delays (trace (performReconnect P s)) =
     (if exhausted s then published_delays (trace s)
      else published_delays (trace s) @ [reconnect_delay P (options s) (currentBackoff s)])"
  by (simp_all add: performReconnect_def exhausted_def Let_def)

subsection \<open>The reconnect context along a run\<close>

lemma handleConnectionFailure_advance: "advance s (handleConnectionFailure P s)"
  by (simp add: advance_def handleConnectionFailure_def Let_def exhausted_def)

lemma connect_advance: "advance s (connect P s)"
  by (simp add: advance_def connect_def Let_def exhausted_def)

lemma connect_not_open: "state (connect P s) \<noteq> OPEN"
  by (simp add: connect_def Let_def)

lemma connection_timeout_advance: "advance s (connection_timeout P s)"
  by (simp add: advance_def connection_timeout_def handleConnectionFailure_def Let_def exhausted_def)

lemma heartbeat_tick_advance: "advance s (heartbeat_tick P now s)"
  by (simp add: advance_def heartbeat_tick_def Let_def)

lemma heartbeat_timeout_advance: "advance s (heartbeat_timeout P now s)"
  by (simp add: advance_def heartbeat_timeout_def Let_def exhausted_def split: option.splits)

lemma onmessage_advance: "advance s (onmessage P f now s)"
  by (simp add: advance_def onmessage_def Let_def split: sum.splits bool.splits)

lemma onclose_advance: "advance s (onclose P s)"
  by (simp add: advance_def onclose_def after_close_def Let_def exhausted_def split: option.splits outcome.splits)

lemma onerror_advance: "advance s (onerror P s)"
  by (simp add: advance_def onerror_def after_error_def handleConnectionFailure_def Let_def exhausted_def split: option.splits outcome.splits)

lemma close_advance: "advance s (close r s)"
  by (simp add: advance_def close_def Let_def split: option.splits)

lemma advance_from:
  assumes "advance s0 s'"
    and "state s0 = state s" "reconnectCount s0 = reconnectCount s"
    and "currentBackoff s0 = currentBackoff s"
  shows "advance s s'"
  using assms by (simp add: advance_def)

lemma advance_refl: "advance s s"
  by (simp add: advance_def)

lemma send_advance: "advance s (snd (send P d s))"
  by (simp add: advance_def)

lemma reconnect_False_advance: "advance s (snd (reconnect P False s))"
proof -
  have "snd (reconnect P False s) =
          connect P ((case ws s of None \<Rightarrow> s | Some r \<Rightarrow> ws_close s)\<lparr>explicitClose := False\<rparr>)"
    by (simp add: reconnect_def Let_def)
  moreover have "advance s (connect P ((case ws s of None \<Rightarrow> s | Some r \<Rightarrow> ws_close s)\<lparr>explicitClose := False\<rparr>))"
    by (rule advance_from [OF connect_advance]) (simp_all split: option.splits)
  ultimately show ?thesis by simp
qed

lemma checkConnection_advance: "advance s (snd (checkConnection P s))"
  by (simp add: advance_def checkConnection_def Let_def exhausted_def)

lemma destroy_advance: "advance s (destroy s)"
  by (simp add: advance_def destroy_def Let_def split: option.splits)

lemma step_advance:
  assumes "x \<noteq> TransportOpen" "x \<noteq> Reconnect True" "\<And>m. x \<noteq> UpdateOptions m"
  shows "advance s (step P x s)"
proof (cases x)
  case (TransportReadyState r)
  then show ?thesis by (simp add: advance_def)
next
  case ConnectionTimeoutFires
  then show ?thesis
    by (auto simp: advance_refl intro: advance_from [OF connection_timeout_advance])
next
  case (HeartbeatTimeoutFires now)
  then show ?thesis
    by (auto simp: advance_refl intro: advance_from [OF heartbeat_timeout_advance])
next
  case ReconnectTimerFires
  then show ?thesis
    by (auto simp: advance_refl intro: advance_from [OF connect_advance])
next
  case (Reconnect r)
  with assms have "r = False" by simp
  with Reconnect show ?thesis using reconnect_False_advance by simp
next
  case DisableAutoReconnect
  then show ?thesis by (simp add: advance_def disableAutoReconnect_def)
next
  case EnableAutoReconnect
  then show ?thesis by (simp add: advance_def enableAutoReconnect_def)
qed (use assms in \<open>simp_all add: heartbeat_tick_advance onmessage_advance onclose_advance
       onerror_advance close_advance checkConnection_advance destroy_advance advance_refl
       send_advance\<close>)

text \<open>The definitions that evaluate the model on a concrete input.\<close>

lemmas engine_defs =
  new_SupaSocket_def fresh_def connect_def performReconnect_def handleConnectionFailure_def
  connection_timeout_def onopen_def onclose_def onerror_def onmessage_def after_close_def
  after_error_def close_def reconnect_def checkConnection_def updateOptions_def destroy_def
  disableAutoReconnect_def enableAutoReconnect_def heartbeat_tick_def heartbeat_timeout_def
  startHeartbeat_def startHeartbeatTimeout_def clearHeartbeatTimers_def resetHeartbeatTimeout_def
  clearConnectionTimeout_def ws_close_def set_connection_state_def status_callback_def
  emit_def act_def send_def prepareMessage_def processMessageQueue_def isConnected_def
  reconnect_delay_def js_or_def positive_def Let_def default_options_def

lemma three_failures_publications:
  "reconnect_publications (trace three_failures) =
     [Reconnecting 1 (Some 2) 1000, Reconnecting 2 (Some 2) 1500, ReconnectFailed 2 (Some 2)]"
  by (simp add: three_failures_def failure_def demo_platform_def limit2_options_def engine_defs)

subsection \<open>Where the reconnect context is reset\<close>

lemma onopen_counts:
  "reconnectCount (onopen P s) = 0" "currentBackoff (onopen P s) = 0"
  by (simp_all add: onopen_def Let_def split: option.splits outcome.splits)

lemma connect_from_zero:
  assumes "reconnectCount s = 0" "currentBackoff s = 0"
  shows "reconnectCount (connect P s) = 0 \<and> currentBackoff (connect P s) = 0 \<or>
         WebSocket_throws P (url (options s)) \<and>
         reconnectCount (connect P s) = 1 \<and> currentBackoff (connect P s) = 1"
  using assms by (simp add: connect_def Let_def)

lemma reconnect_True_counts:
  "reconnectCount (snd (reconnect P True s)) = 0 \<and> currentBackoff (snd (reconnect P True s)) = 0 \<or>
   WebSocket_throws P (url (options s)) \<and>
   reconnectCount (snd (reconnect P True s)) = 1 \<and> currentBackoff (snd (reconnect P True s)) = 1"
proof -
  let ?t = "(case ws s of None \<Rightarrow> s | Some r \<Rightarrow> ws_close s)\<lparr>reconnectCount := 0, currentBackoff := 0, explicitClose := False\<rparr>"
  have eq: "snd (reconnect P True s) = connect P ?t"
    by (simp add: reconnect_def Let_def)
  have "options ?t = options s" by (simp split: option.splits)
  with connect_from_zero [of ?t P] show ?thesis unfolding eq by simp
qed

lemma reconnect_not_open: "state (snd (reconnect P r s)) \<noteq> OPEN"
  by (simp add: reconnect_def Let_def connect_not_open)

lemma updateOptions_counts:
  assumes "open_means_reset s"
  shows "reconnectCount (updateOptions P m s) = reconnectCount s \<and>
           currentBackoff (updateOptions P m s) = currentBackoff s \<or>
         reconnectCount (updateOptions P m s) = reconnectCount s + 1 \<and>
           currentBackoff (updateOptions P m s) = currentBackoff s + 1"
proof (cases "url (options s) \<noteq> url (m (options s)) \<and> state s = OPEN")
  case True
  let ?s1 = "s\<lparr>options := m (options s)\<rparr>"
  have "updateOptions P m s = snd (reconnect P True ?s1)"
    using True reconnect_not_open [of P True ?s1]
    by (simp add: updateOptions_def Let_def isConnected_def)
  moreover from True assms have "reconnectCount s = 0" "currentBackoff s = 0"
    by (simp_all add: open_means_reset_def)
  ultimately show ?thesis using reconnect_True_counts [of P ?s1] by auto
next
  case False
  then show ?thesis by (auto simp: updateOptions_def Let_def isConnected_def)
qed

lemma updateOptions_open:
  "state (updateOptions P m s) = OPEN \<Longrightarrow>
     state s = OPEN \<and> reconnectCount (updateOptions P m s) = reconnectCount s \<and>
     currentBackoff (updateOptions P m s) = currentBackoff s"
  using reconnect_not_open [of P True "s\<lparr>options := m (options s)\<rparr>"]
  by (auto simp: updateOptions_def Let_def isConnected_def split: if_splits)

lemma step_counts:
  assumes "open_means_reset s" "x \<noteq> TransportOpen" "x \<noteq> Reconnect True"
  shows "reconnectCount (step P x s) = reconnectCount s \<and>
           currentBackoff (step P x s) = currentBackoff s \<or>
         reconnectCount (step P x s) = reconnectCount s + 1 \<and>
           currentBackoff (step P x s) = currentBackoff s + 1"
proof (cases "\<exists>m. x = UpdateOptions m")
  case True
  then obtain m where "x = UpdateOptions m" ..
  with updateOptions_counts [OF assms(1), of P m] show ?thesis by simp
next
  case False
  with assms have "advance s (step P x s)" by (intro step_advance) auto
  then show ?thesis by (auto simp: advance_def)
qed

lemma step_invariant:
  assumes "open_means_reset s"
  shows "open_means_reset (step P x s)"
proof -
  consider (op) "x = TransportOpen" | (re) "x = Reconnect True" | (up) m where "x = UpdateOptions m"
    | (other) "x \<noteq> TransportOpen" "x \<noteq> Reconnect True" "\<And>m. x \<noteq> UpdateOptions m"
    by blast
  then show ?thesis
  proof cases
    case op
    then show ?thesis by (simp add: open_means_reset_def onopen_counts)
  next
    case re
    then show ?thesis by (simp add: open_means_reset_def reconnect_not_open)
  next
    case up
    with assms updateOptions_open [of P m s] show ?thesis
      by (auto simp: open_means_reset_def)
  next
    case other
    then have "advance s (step P x s)" by (rule step_advance)
    with assms show ?thesis by (auto simp: open_means_reset_def advance_def)
  qed
qed

lemma exec_invariant: "open_means_reset s \<Longrightarrow> open_means_reset (exec P xs s)"
  by (induction xs arbitrary: s) (simp_all add: step_invariant)

lemma new_invariant: "open_means_reset (new_SupaSocket P opts)"
  by (simp add: open_means_reset_def new_SupaSocket_def connect_not_open)

text \<open>
  Claim C7. After any sequence of operations on a newly constructed \<open>SupaSocket\<close>: a
  transport open leaves \<open>reconnectCount\<close> and \<open>currentBackoff\<close> at zero; so does
  \<open>reconnect(true)\<close>, unless the \<open>WebSocket\<close> constructor throws in the \<open>connect()\<close> it
  ends with, and then that failed attempt has counted both from zero to one; every other
  operation leaves both as they are or adds one to both, so no failed attempt resets them.
\<close>

theorem reconnect_context_reset:
  "(reconnectCount (step P TransportOpen (exec P xs (new_SupaSocket P opts))) = 0 \<and>
    currentBackoff (step P TransportOpen (exec P xs (new_SupaSocket P opts))) = 0) \<and>
   (reconnectCount (step P (Reconnect True) (exec P xs (new_SupaSocket P opts))) = 0 \<and>
      currentBackoff (step P (Reconnect True) (exec P xs (new_SupaSocket P opts))) = 0
    \<or> WebSocket_throws P (url (options (exec P xs (new_SupaSocket P opts)))) \<and>
      reconnectCount (step P (Reconnect True) (exec P xs (new_SupaSocket P opts))) = 1 \<and>
      currentBackoff (step P (Reconnect True) (exec P xs (new_SupaSocket P opts))) = 1) \<and>
   (x \<noteq> TransportOpen \<and> x \<noteq> Reconnect True \<longrightarrow>
      reconnectCount (step P x (exec P xs (new_SupaSocket P opts))) =
        reconnectCount (exec P xs (new_SupaSocket P opts)) \<and>
      currentBackoff (step P x (exec P xs (new_SupaSocket P opts))) =
        currentBackoff (exec P xs (new_SupaSocket P opts))
    \<or> reconnectCount (step P x (exec P xs (new_SupaSocket P opts))) =
        reconnectCount (exec P xs (new_SupaSocket P opts)) + 1 \<and>
      currentBackoff (step P x (exec P xs (new_SupaSocket P opts))) =
        currentBackoff (exec P xs (new_SupaSocket P opts)) + 1)"
proof -
  let ?s = "exec P xs (new_SupaSocket P opts)"
  have inv: "open_means_reset ?s" by (rule exec_invariant [OF new_invariant])
  show ?thesis
    using reconnect_True_counts [of P ?s] step_counts [OF inv, of x P]
    by (simp add: onopen_counts)
qed

text \<open>
  After one failed connection the counters are at one: an open and \<open>reconnect(true)\<close>
  bring them to zero, a second failure to two.
\<close>

theorem reconnect_context_reset_witness:
  "reconnectCount (exec demo_platform failure (new_SupaSocket demo_platform limit2_options)) = 1 \<and>
   currentBackoff (exec demo_platform failure (new_SupaSocket demo_platform limit2_options)) = 1 \<and>
   reconnectCount (step demo_platform TransportOpen
     (exec demo_platform failure (new_SupaSocket demo_platform limit2_options))) = 0 \<and>
   reconnectCount (step demo_platform (Reconnect True)
     (exec demo_platform failure (new_SupaSocket demo_platform limit2_options))) = 0 \<and>
   TransportClose \<noteq> TransportOpen \<and> TransportClose \<noteq> Reconnect True \<and>
   reconnectCount (step demo_platform TransportClose
     (exec demo_platform failure (new_SupaSocket demo_platform limit2_options))) = 2 \<and>
   currentBackoff (step demo_platform TransportClose
     (exec demo_platform failure (new_SupaSocket demo_platform limit2_options))) = 2"
  using reconnect_context_reset [of demo_platform failure limit2_options TransportClose]
  by (simp add: failure_def demo_platform_def limit2_options_def engine_defs)

subsection \<open>Backoff delays\<close>

text \<open>
  An attempt below the limit publishes the delay of the current exponent and increments
  the exponent afterwards.
\<close>

lemma attempt_publishes_delay:
  "\<not> exhausted s \<Longrightarrow>
     published_delays (trace (performReconnect P s)) =
       published_delays (trace s) @ [reconnect_delay P (options s) (currentBackoff s)] \<and>
     currentBackoff (performReconnect P s) = currentBackoff s + 1"
  by simp

text \<open>
  From the second step of a run on, the delay is capped by a maximum that is set and not
  zero, whatever the platform's arithmetic returns.
\<close>

lemma later_delay_capped:
  "maxReconnectDelay opts = Some M \<Longrightarrow> M \<noteq> 0 \<Longrightarrow> 0 < b \<Longrightarrow> reconnect_delay P opts b \<le> M"
  by (simp add: reconnect_delay_def js_or_def Let_def)

text \<open>
  When the interval is positive and at most the maximum, and the platform's product
  \<open>interval * Math.pow(1.5, b)\<close> does not decrease as \<open>b\<close> grows and is at least the interval
  at \<open>b = 1\<close> (rounding keeps both), the delay does not decrease with the exponent and never
  exceeds the maximum.
\<close>

lemma delay_nondecreasing_within_limit:
  assumes "reconnectInterval opts = Some I" "maxReconnectDelay opts = Some M" "0 < I" "I \<le> M"
    and grow: "\<And>n. multiply P I (Math_pow P (3 / 2) n) \<le> multiply P I (Math_pow P (3 / 2) (Suc n))"
    and first: "I \<le> multiply P I (Math_pow P (3 / 2) 1)"
  shows "a \<le> b \<Longrightarrow> reconnect_delay P opts a \<le> reconnect_delay P opts b"
    and "reconnect_delay P opts b \<le> M"
proof -
  have zero: "reconnect_delay P opts 0 = I"
    using assms(1,3) by (simp add: reconnect_delay_def js_or_def)
  have pos: "reconnect_delay P opts n = min M (multiply P I (Math_pow P (3 / 2) n))" if "0 < n" for n
    using assms(1-4) that by (simp add: reconnect_delay_def js_or_def)
  show bound: "reconnect_delay P opts b \<le> M"
    using zero pos [of b] assms(4) by (cases "b = 0") simp_all
  have step: "reconnect_delay P opts n \<le> reconnect_delay P opts (Suc n)" for n
  proof (cases "n = 0")
    case True
    with zero pos [of "Suc 0"] first assms(4) show ?thesis by simp
  next
    case False
    with pos [of n] pos [of "Suc n"] grow [of n] show ?thesis
      by (simp add: min_le_iff_disj)
  qed
  show "reconnect_delay P opts a \<le> reconnect_delay P opts b" if "a \<le> b"
    using that
  proof (induction b)
    case 0
    then show ?case by simp
  next
    case (Suc b)
    show ?case
    proof (cases "a = Suc b")
      case True
      then show ?thesis by simp
    next
      case False
      with Suc have "reconnect_delay P opts a \<le> reconnect_delay P opts b" by simp
      also have "\<dots> \<le> reconnect_delay P opts (Suc b)" by (rule step)
      finally show ?thesis .
    qed
  qed
qed

text \<open>
  With \<open>reconnectInterval\<close> 1000, \<open>maxReconnectDelay\<close> 5000 and the default limit of five, five
  failures in a row publish the delays 1000, 1500, 2250, 3375, 5000.
\<close>

lemma interval1000_delays:
  "run_delays demo_platform five_failures (new_SupaSocket demo_platform interval1000_options) =
     [1000, 1500, 2250, 3375, 5000]"
  by (simp add: run_delays_def five_failures_def failure_def interval1000_options_def
        demo_platform_def engine_defs power_divide)


subsection \<open>The attempt limit\<close>

lemma reconnect_publications_append [simp]:
  "reconnect_publications (t @ u) = reconnect_publications t @ reconnect_publications u"
  by (induction t rule: reconnect_publications.induct) simp_all

lemma performReconnect_at_limit:
  assumes "reconnectLimit (options s) = Some L" "L \<noteq> 0" "L \<le> of_nat (reconnectCount s)"
  shows "performReconnect P s =
           s\<lparr>trace := trace s @ [Publish (ReconnectFailed (reconnectCount s) (Some L))]\<rparr>"
  using assms by (simp add: performReconnect_def js_or_def emit_def act_def)

text \<open>
  When \<open>reconnectLimit\<close> is set and not zero and \<open>reconnectCount\<close> has reached it,
  \<open>performReconnect\<close> publishes \<open>reconnectFailed\<close> with \<open>{attempts, limit}\<close>, adds nothing else
  to the trace and arms no reconnect timer.
\<close>

lemma nonzero_limit_reached:
  assumes "reconnectLimit (options s) = Some L" "L \<noteq> 0" "L \<le> of_nat (reconnectCount s)"
  shows "trace (performReconnect P s) =
           trace s @ [Publish (ReconnectFailed (reconnectCount s) (Some L))]"
    and "reconnectTimers (performReconnect P s) = reconnectTimers s"
  by (simp_all add: performReconnect_at_limit [OF assms])

text \<open>
  With \<open>reconnectLimit = 2\<close>, \<open>reconnectInterval = 1000\<close> and \<open>maxReconnectDelay = 5000\<close>, three
  failures in a row publish \<open>reconnecting\<close> with delay 1000, \<open>reconnecting\<close> with delay 1500
  and then \<open>reconnectFailed\<close> with \<open>attempts: 2, limit: 2\<close>, leaving no reconnect timer
  pending; after \<open>reconnect(true)\<close> the next failure is attempt 1 again.
\<close>

lemma limit2_three_failures:
  "reconnect_publications (trace three_failures) =
     [Reconnecting 1 (Some 2) 1000, Reconnecting 2 (Some 2) 1500, ReconnectFailed 2 (Some 2)] \<and>
   reconnectTimers three_failures = 0 \<and>
   reconnect_publications (trace (exec demo_platform (Reconnect True # failure) three_failures)) =
     [Reconnecting 1 (Some 2) 1000, Reconnecting 2 (Some 2) 1500, ReconnectFailed 2 (Some 2),
      Reconnecting 1 (Some 2) 1000]"
proof (intro conjI)
  show "reconnect_publications (trace three_failures) =
     [Reconnecting 1 (Some 2) 1000, Reconnecting 2 (Some 2) 1500, ReconnectFailed 2 (Some 2)]"
    by (rule three_failures_publications)
  show "reconnectTimers three_failures = 0"
    by (simp add: three_failures_def failure_def demo_platform_def limit2_options_def engine_defs)
  show "reconnect_publications (trace (exec demo_platform (Reconnect True # failure) three_failures)) =
     [Reconnecting 1 (Some 2) 1000, Reconnecting 2 (Some 2) 1500, ReconnectFailed 2 (Some 2),
      Reconnecting 1 (Some 2) 1000]"
    by (simp add: three_failures_def failure_def demo_platform_def limit2_options_def engine_defs)
qed

text \<open>
  Claim C2 does not hold of the code for \<open>reconnectLimit: 0\<close>. \<open>performReconnect\<close> compares
  \<open>reconnectCount\<close> with \<open>reconnectLimit || 5\<close>, and \<open>0 || 5\<close> is \<open>5\<close>. At the first failure of a
  socket constructed with \<open>reconnectLimit: 0\<close> the attempt count is 0, which has reached the
  limit 0; the code publishes \<open>reconnecting\<close> with \<open>attempt: 1, limit: 0\<close> and arms a reconnect
  timer, where the claim has \<open>reconnectFailed\<close> and no further attempt.
\<close>

theorem limit_zero_reconnects:
  "reconnectLimit (options (new_SupaSocket demo_platform limit0_options)) = Some 0 \<and>
   reconnectCount (new_SupaSocket demo_platform limit0_options) = 0 \<and>
   reconnect_publications
     (trace (exec demo_platform failure (new_SupaSocket demo_platform limit0_options))) =
     [Reconnecting 1 (Some 0) 5000] \<and>
   reconnectTimers (exec demo_platform failure (new_SupaSocket demo_platform limit0_options)) = 1"
  by (simp add: failure_def demo_platform_def limit0_options_def engine_defs)

text \<open>
  With \<open>reconnectLimit: 0\<close> the socket goes on to five attempts, each published with
  \<open>limit: 0\<close>, and gives up at the sixth failure with \<open>attempts: 5, limit: 0\<close>.
\<close>

lemma limit_zero_counts_to_five:
  "reconnect_publications
     (trace (exec demo_platform (five_failures @ [ReconnectTimerFires] @ failure)
        (new_SupaSocket demo_platform limit0_options))) =
     [Reconnecting 1 (Some 0) 5000, Reconnecting 2 (Some 0) 7500, Reconnecting 3 (Some 0) 11250,
      Reconnecting 4 (Some 0) 16875, Reconnecting 5 (Some 0) (50625 / 2),
      ReconnectFailed 5 (Some 0)]"
  by (simp add: five_failures_def failure_def demo_platform_def limit0_options_def engine_defs
        power_divide)

subsection \<open>Exhaustion changes nothing\<close>

lemma performReconnect_repeated:
  assumes "reconnectLimit (options s) = Some L" "L \<noteq> 0" "L \<le> of_nat (reconnectCount s)"
  shows "(performReconnect P ^^ n) s =
           s\<lparr>trace := trace s @ replicate n (Publish (ReconnectFailed (reconnectCount s) (Some L)))\<rparr>"
proof (induction n)
  case 0
  show ?case by simp
next
  case (Suc n)
  let ?t = "s\<lparr>trace := trace s @ replicate n (Publish (ReconnectFailed (reconnectCount s) (Some L)))\<rparr>"
  have "performReconnect P ?t =
          ?t\<lparr>trace := trace ?t @ [Publish (ReconnectFailed (reconnectCount ?t) (Some L))]\<rparr>"
    using assms by (intro performReconnect_at_limit) simp_all
  then show ?case
    by (simp add: Suc replicate_append_same)
qed

text \<open>
  When \<open>reconnectLimit\<close> is set and not zero and \<open>reconnectCount\<close> has reached it, any number
  \<open>n\<close> of calls of \<open>performReconnect\<close> leave every field as it was, the session state and
  both counters among them, and add to the trace \<open>n\<close> times the same \<open>reconnectFailed\<close>
  publication.
\<close>

lemma nonzero_limit_exhausted:
  assumes "reconnectLimit (options s) = Some L" and "L \<noteq> 0" and "L \<le> of_nat (reconnectCount s)"
  shows "(performReconnect P ^^ n) s =
           s\<lparr>trace := trace s @ replicate n (Publish (ReconnectFailed (reconnectCount s) (Some L)))\<rparr> \<and>
         state ((performReconnect P ^^ n) s) = state s \<and>
         reconnectCount ((performReconnect P ^^ n) s) = reconnectCount s \<and>
         currentBackoff ((performReconnect P ^^ n) s) = currentBackoff s"
  by (simp add: performReconnect_repeated [OF assms])

text \<open>After two failures with limit 2, three more calls publish the same failure three times.\<close>

lemma limit2_exhausted:
  "reconnectCount after_two_failures = 2 \<and>
   state after_two_failures = CONNECTING \<and>
   state ((performReconnect demo_platform ^^ 3) after_two_failures) = CONNECTING \<and>
   reconnectCount ((performReconnect demo_platform ^^ 3) after_two_failures) = 2 \<and>
   trace ((performReconnect demo_platform ^^ 3) after_two_failures) =
     trace after_two_failures @
       [Publish (ReconnectFailed 2 (Some 2)), Publish (ReconnectFailed 2 (Some 2)),
        Publish (ReconnectFailed 2 (Some 2))]"
proof -
  have h: "reconnectLimit (options after_two_failures) = Some 2" "(2::rat) \<noteq> 0"
    "(2::rat) \<le> of_nat (reconnectCount after_two_failures)"
    and c: "reconnectCount after_two_failures = 2" "state after_two_failures = CONNECTING"
    by (simp_all add: after_two_failures_def failure_def demo_platform_def limit2_options_def
          engine_defs)
  from nonzero_limit_exhausted [OF h, where P = demo_platform and n = 3] h c show ?thesis
    by (simp add: numeral_3_eq_3)
qed

text \<open>
  Claim C10 does not hold of the code for \<open>reconnectLimit: 0\<close>, by the same comparison with
  \<open>reconnectLimit || 5\<close>. After three failures of a socket constructed with
  \<open>reconnectLimit: 0\<close> the attempt count is 3, which has reached the limit 0; the next call
  of \<open>performReconnect\<close> moves the session state from \<open>CONNECTING\<close> to \<open>RECONNECTING\<close>, counts
  both counters up to four and publishes \<open>reconnecting\<close>, where the claim has
  \<open>reconnectFailed\<close> and no mutation.
\<close>

theorem limit_zero_exhaustion_mutates:
  "reconnectLimit (options limit0_after_three_failures) = Some 0 \<and>
   reconnectCount limit0_after_three_failures = 3 \<and>
   currentBackoff limit0_after_three_failures = 3 \<and>
   state limit0_after_three_failures = CONNECTING \<and>
   state (performReconnect demo_platform limit0_after_three_failures) = RECONNECTING \<and>
   reconnectCount (performReconnect demo_platform limit0_after_three_failures) = 4 \<and>
   currentBackoff (performReconnect demo_platform limit0_after_three_failures) = 4 \<and>
   trace (performReconnect demo_platform limit0_after_three_failures) =
     trace limit0_after_three_failures @
       [Publish (StatusChange RECONNECTING CONNECTING), Publish (Reconnecting 4 (Some 0) 16875),
        SetTimer ReconnectTimer 16875]"
  by (simp add: limit0_after_three_failures_def failure_def demo_platform_def limit0_options_def
        engine_defs power_divide)

subsection \<open>\<open>checkConnection\<close>\<close>

lemma set_connection_state_publications [simp]:
  "reconnect_publications (trace (set_connection_state n s)) = reconnect_publications (trace s)"
  by (auto simp: set_connection_state_def status_callback_def split: option.splits outcome.splits)

lemma performReconnect_publications:
  "reconnect_publications (trace (performReconnect P s)) =
     reconnect_publications (trace s) @
       [if exhausted s then ReconnectFailed (reconnectCount s) (reconnectLimit (options s))
        else Reconnecting (reconnectCount s + 1) (reconnectLimit (options s))
               (reconnect_delay P (options s) (currentBackoff s))]"
  by (simp add: performReconnect_def exhausted_def Let_def)

text \<open>
  Claim C9, as amended. \<open>checkConnection()\<close> calls \<open>performReconnect\<close>, which publishes
  \<open>reconnecting\<close> or \<open>reconnectFailed\<close>, exactly when the state is \<open>CLOSED\<close>, the last close was
  not explicit and auto-reconnect is on; otherwise it changes nothing. It returns the
  session state it found when it was called. That is the state at the time it returns
  except when it started a reconnection attempt: then it returns \<open>CLOSED\<close> while the state
  is \<open>RECONNECTING\<close>.
\<close>

theorem checkConnection_returns_state_found:
  "fst (checkConnection P s) = state s \<and>
   (state s = CLOSED \<and> \<not> explicitClose s \<and> autoReconnect (options s) \<longrightarrow>
      snd (checkConnection P s) = performReconnect P s) \<and>
   (\<not> (state s = CLOSED \<and> \<not> explicitClose s \<and> autoReconnect (options s)) \<longrightarrow>
      snd (checkConnection P s) = s) \<and>
   (reconnect_publications (trace (snd (checkConnection P s))) \<noteq> reconnect_publications (trace s)
      \<longleftrightarrow> state s = CLOSED \<and> \<not> explicitClose s \<and> autoReconnect (options s)) \<and>
   (state (snd (checkConnection P s)) \<noteq> fst (checkConnection P s)
      \<longleftrightarrow> state s = CLOSED \<and> \<not> explicitClose s \<and> autoReconnect (options s) \<and> \<not> exhausted s) \<and>
   (state (snd (checkConnection P s)) \<noteq> fst (checkConnection P s) \<longrightarrow>
      fst (checkConnection P s) = CLOSED \<and> state (snd (checkConnection P s)) = RECONNECTING)"
  by (auto simp: checkConnection_def Let_def performReconnect_publications)

text \<open>
  On the dropped connection the call starts attempt 1 and returns \<open>CLOSED\<close>; called again,
  in state \<open>RECONNECTING\<close>, it changes nothing and returns \<open>RECONNECTING\<close>.
\<close>

theorem checkConnection_returns_state_found_witness:
  "state dropped_connection = CLOSED \<and> \<not> explicitClose dropped_connection \<and>
   autoReconnect (options dropped_connection) \<and> \<not> exhausted dropped_connection \<and>
   fst (checkConnection demo_platform dropped_connection) = CLOSED \<and>
   snd (checkConnection demo_platform dropped_connection) = performReconnect demo_platform dropped_connection \<and>
   reconnect_publications (trace (snd (checkConnection demo_platform dropped_connection))) =
     [Reconnecting 1 (Some 5) 5000] \<and>
   state (snd (checkConnection demo_platform dropped_connection)) = RECONNECTING \<and>
   checkConnection demo_platform (snd (checkConnection demo_platform dropped_connection)) =
     (RECONNECTING, snd (checkConnection demo_platform dropped_connection))"
proof -
  have h: "state dropped_connection = CLOSED" "\<not> explicitClose dropped_connection"
    "autoReconnect (options dropped_connection)" "\<not> exhausted dropped_connection"
    "reconnect_publications (trace dropped_connection) = []"
    "reconnectLimit (options dropped_connection) = Some 5"
    "reconnectCount dropped_connection = 0"
    "reconnect_delay demo_platform (options dropped_connection) (currentBackoff dropped_connection) = 5000"
    by (simp_all add: exhausted_def dropped_connection_def failure_def demo_platform_def engine_defs)
  have s: "state (performReconnect demo_platform dropped_connection) = RECONNECTING"
    using h by simp
  from checkConnection_returns_state_found [of demo_platform dropped_connection]
    checkConnection_returns_state_found [of demo_platform "performReconnect demo_platform dropped_connection"] h s
  show ?thesis
    by (simp add: performReconnect_publications prod_eq_iff)
qed

text \<open>
  The claim as stated fails on the dropped connection: the call returns \<open>CLOSED\<close>, and when
  it returns the session state is \<open>RECONNECTING\<close>.
\<close>

theorem checkConnection_counterexample:
  "fst (checkConnection demo_platform dropped_connection) = CLOSED \<and>
   state (snd (checkConnection demo_platform dropped_connection)) = RECONNECTING"
  by (simp add: dropped_connection_def failure_def demo_platform_def engine_defs)

subsection \<open>\<open>send\<close>\<close>

lemma send_cases:
  "(ws s = Some WS_OPEN \<longrightarrow>
      (typeof_string d \<or> is_binary d \<longrightarrow> prepareMessage P d = Inr d) \<and>
      (\<not> typeof_string d \<and> \<not> is_binary d \<longrightarrow>
         prepareMessage P d =
           (case JSON_stringify P d of None \<Rightarrow> Inl OtherError | Some m \<Rightarrow> Inr m)) \<and>
      (\<forall>m. prepareMessage P d = Inr m \<and> \<not> ws_send_throws P m \<longrightarrow>
         send P d s = (True, act (WsSend m) s)) \<and>
      (wire P d = None \<longrightarrow> send P d s = (False, emit (SendError d) s))) \<and>
   (ws s \<noteq> Some WS_OPEN \<and> (state s = CONNECTING \<or> state s = RECONNECTING) \<longrightarrow>
      send P d s = (True, s\<lparr>messageQueue := messageQueue s @ [d]\<rparr>)) \<and>
   (ws s \<noteq> Some WS_OPEN \<and> state s \<noteq> CONNECTING \<and> state s \<noteq> RECONNECTING \<longrightarrow>
      send P d s = (False, emit (SendError d) s) \<and>
      messageQueue (snd (send P d s)) = messageQueue s) \<and>
   ((\<exists>m. send P d s = (True, act (WsSend m) s)) \<or>
    send P d s = (True, s\<lparr>messageQueue := messageQueue s @ [d]\<rparr>) \<or>
    send P d s = (False, emit (SendError d) s)) \<and>
   \<not> ((\<exists>m. send P d s = (True, act (WsSend m) s)) \<and>
      send P d s = (True, s\<lparr>messageQueue := messageQueue s @ [d]\<rparr>))"
proof -
  have prep: "(typeof_string d \<or> is_binary d \<longrightarrow> prepareMessage P d = Inr d) \<and>
      (\<not> typeof_string d \<and> \<not> is_binary d \<longrightarrow>
         prepareMessage P d =
           (case JSON_stringify P d of None \<Rightarrow> Inl OtherError | Some m \<Rightarrow> Inr m))"
    by (cases d) (simp_all add: prepareMessage_def)
  have differ: "act (WsSend m) s \<noteq> s\<lparr>messageQueue := messageQueue s @ [d]\<rparr>" for m
  proof
    assume "act (WsSend m) s = s\<lparr>messageQueue := messageQueue s @ [d]\<rparr>"
    then have "trace (act (WsSend m) s) = trace (s\<lparr>messageQueue := messageQueue s @ [d]\<rparr>)"
      by (rule arg_cong)
    then show False by simp
  qed
  have opened: "send P d s = (True, act (WsSend m) s)"
    if "ws s = Some WS_OPEN" "prepareMessage P d = Inr m" "\<not> ws_send_throws P m" for m
    using that by (simp add: send_def)
  have failed: "send P d s = (False, emit (SendError d) s)"
    if "ws s = Some WS_OPEN" "wire P d = None"
    using that by (cases "prepareMessage P d") (simp_all add: send_def wire_def split: if_splits)
  have queued: "send P d s = (True, s\<lparr>messageQueue := messageQueue s @ [d]\<rparr>)"
    if "ws s \<noteq> Some WS_OPEN" "state s = CONNECTING \<or> state s = RECONNECTING"
    using that by (simp add: send_def)
  have refused: "send P d s = (False, emit (SendError d) s)"
    if "ws s \<noteq> Some WS_OPEN" "state s \<noteq> CONNECTING" "state s \<noteq> RECONNECTING"
    using that by (simp add: send_def)
  have ways: "(\<exists>m. send P d s = (True, act (WsSend m) s)) \<or>
    send P d s = (True, s\<lparr>messageQueue := messageQueue s @ [d]\<rparr>) \<or>
    send P d s = (False, emit (SendError d) s)"
  proof (cases "ws s = Some WS_OPEN")
    case True
    show ?thesis
    proof (cases "wire P d")
      case None
      with True failed show ?thesis by simp
    next
      case (Some m)
      then have "prepareMessage P d = Inr m" "\<not> ws_send_throws P m"
        by (simp_all add: wire_def split: sum.splits if_splits)
      with True opened show ?thesis by blast
    qed
  next
    case False
    with queued refused show ?thesis by blast
  qed
  have exclusive: "\<not> ((\<exists>m. send P d s = (True, act (WsSend m) s)) \<and>
      send P d s = (True, s\<lparr>messageQueue := messageQueue s @ [d]\<rparr>))"
  proof
    assume "(\<exists>m. send P d s = (True, act (WsSend m) s)) \<and>
      send P d s = (True, s\<lparr>messageQueue := messageQueue s @ [d]\<rparr>)"
    then obtain m where "act (WsSend m) s = s\<lparr>messageQueue := messageQueue s @ [d]\<rparr>"
      by auto
    with differ show False by blast
  qed
  have closed: "send P d s = (False, emit (SendError d) s) \<and>
      messageQueue (snd (send P d s)) = messageQueue s"
    if "ws s \<noteq> Some WS_OPEN" "state s \<noteq> CONNECTING" "state s \<noteq> RECONNECTING"
  proof -
    from that have "send P d s = (False, emit (SendError d) s)"
      by (intro refused) auto
    then show ?thesis by simp
  qed
  show ?thesis
    apply (intro conjI impI allI)
    subgoal using prep by blast
    subgoal using prep by blast
    subgoal using opened by blast
    subgoal using failed by blast
    subgoal using queued by blast
    subgoal using closed by blast
    subgoal using closed by blast
    subgoal using ways by blast
    subgoal using exclusive by blast
    done
qed

text \<open>
  Claim C3, as amended. \<open>send\<close> tests the transport first and the session state after it.
  With an open transport, whatever the session state, it prepares the payload (a string,
  \<open>ArrayBuffer\<close> or \<open>Blob\<close> as it is, anything else through \<open>JSON.stringify\<close>) and hands it
  to the transport: the trace grows by that \<open>ws.send\<close> and the result is \<open>true\<close>; when
  preparing or sending throws, the trace grows by a \<open>sendError\<close> publication and the result
  is \<open>false\<close>. Otherwise, in state \<open>CONNECTING\<close> or \<open>RECONNECTING\<close>, the payload is appended to
  the queue, nothing is added to the trace and the result is \<open>true\<close>. Otherwise, as in state
  \<open>CLOSED\<close> or \<open>CLOSING\<close>, the trace grows by a \<open>sendError\<close> publication, the result is
  \<open>false\<close> and the queue stays as it is. Nothing else changes, and in every state exactly
  one of the three happens: transmitted, queued, or refused with a send error.
\<close>

theorem send_three_ways:
  "(ws s = Some WS_OPEN \<longrightarrow>
      (typeof_string d \<or> is_binary d \<longrightarrow> prepareMessage P d = Inr d) \<and>
      (\<not> typeof_string d \<and> \<not> is_binary d \<longrightarrow>
         prepareMessage P d =
           (case JSON_stringify P d of None \<Rightarrow> Inl OtherError | Some m \<Rightarrow> Inr m)) \<and>
      (\<forall>m. prepareMessage P d = Inr m \<and> \<not> ws_send_throws P m \<longrightarrow>
         send P d s = (True, s\<lparr>trace := trace s @ [WsSend m]\<rparr>)) \<and>
      (wire P d = None \<longrightarrow>
         send P d s = (False, s\<lparr>trace := trace s @ [Publish (SendError d)]\<rparr>))) \<and>
   (ws s \<noteq> Some WS_OPEN \<and> (state s = CONNECTING \<or> state s = RECONNECTING) \<longrightarrow>
      send P d s = (True, s\<lparr>messageQueue := messageQueue s @ [d]\<rparr>)) \<and>
   (ws s \<noteq> Some WS_OPEN \<and> state s \<noteq> CONNECTING \<and> state s \<noteq> RECONNECTING \<longrightarrow>
      send P d s = (False, s\<lparr>trace := trace s @ [Publish (SendError d)]\<rparr>) \<and>
      messageQueue (snd (send P d s)) = messageQueue s) \<and>
   ((\<exists>m. send P d s = (True, s\<lparr>trace := trace s @ [WsSend m]\<rparr>)) \<or>
    send P d s = (True, s\<lparr>messageQueue := messageQueue s @ [d]\<rparr>) \<or>
    send P d s = (False, s\<lparr>trace := trace s @ [Publish (SendError d)]\<rparr>)) \<and>
   \<not> ((\<exists>m. send P d s = (True, s\<lparr>trace := trace s @ [WsSend m]\<rparr>)) \<and>
      send P d s = (True, s\<lparr>messageQueue := messageQueue s @ [d]\<rparr>))"
  using send_cases [of s d P] unfolding act_def emit_def .

text \<open>
  On an open socket the object goes out as its JSON text and a string as it is, and a
  transport whose \<open>send\<close> throws gives a send error; on a connecting socket the object is
  queued; on a closed one it is refused, the queue staying empty.
\<close>

theorem send_three_ways_witness:
  \<open>ws open_socket = Some WS_OPEN \<and>
   send demo_platform chat open_socket =
     (True, open_socket\<lparr>trace := trace open_socket @ [WsSend (JStr ''{"type":"chat","msg":"hi"}'')]\<rparr>) \<and>
   send demo_platform (JStr ''hi'') open_socket =
     (True, open_socket\<lparr>trace := trace open_socket @ [WsSend (JStr ''hi'')]\<rparr>) \<and>
   wire refusing_platform (JStr ''hi'') = None \<and>
   send refusing_platform (JStr ''hi'') open_socket =
     (False, open_socket\<lparr>trace := trace open_socket @ [Publish (SendError (JStr ''hi''))]\<rparr>) \<and>
   ws connecting_socket \<noteq> Some WS_OPEN \<and> state connecting_socket = CONNECTING \<and>
   send demo_platform chat connecting_socket =
     (True, connecting_socket\<lparr>messageQueue := [chat]\<rparr>) \<and>
   ws closed_socket \<noteq> Some WS_OPEN \<and> state closed_socket = CLOSED \<and>
   send demo_platform chat closed_socket =
     (False, closed_socket\<lparr>trace := trace closed_socket @ [Publish (SendError chat)]\<rparr>) \<and>
   messageQueue (snd (send demo_platform chat closed_socket)) = []\<close>
proof -
  have o: "ws open_socket = Some WS_OPEN"
    by (simp add: open_socket_def demo_platform_def engine_defs)
  have c: "ws connecting_socket \<noteq> Some WS_OPEN" "state connecting_socket = CONNECTING"
    "messageQueue connecting_socket = []"
    by (simp_all add: connecting_socket_def demo_platform_def engine_defs)
  have x: "ws closed_socket \<noteq> Some WS_OPEN" "state closed_socket = CLOSED"
    "messageQueue closed_socket = []"
    by (simp_all add: closed_socket_def demo_platform_def engine_defs)
  have p: \<open>prepareMessage demo_platform chat = Inr (JStr ''{"type":"chat","msg":"hi"}'')\<close>
    \<open>\<not> ws_send_throws demo_platform (JStr ''{"type":"chat","msg":"hi"}'')\<close>
    "prepareMessage demo_platform (JStr ''hi'') = Inr (JStr ''hi'')"
    "\<not> ws_send_throws demo_platform (JStr ''hi'')"
    "wire refusing_platform (JStr ''hi'') = None"
    by (simp_all add: prepareMessage_def wire_def chat_def demo_platform_def refusing_platform_def)
  from send_three_ways [of open_socket chat demo_platform]
       send_three_ways [of open_socket "JStr ''hi''" demo_platform]
       send_three_ways [of open_socket "JStr ''hi''" refusing_platform]
       send_three_ways [of connecting_socket chat demo_platform]
       send_three_ways [of closed_socket chat demo_platform]
       o c x p
  show ?thesis by simp
qed

text \<open>
  The claim as stated, which names the second and the third way by the session state
  alone, fails where the session state is not \<open>OPEN\<close> while the transport is open. After
  \<open>close(code)\<close> with a rejected code the state is \<open>CLOSED\<close> and the transport open: the
  object is transmitted and the result is \<open>true\<close>, where the claim has a send error and
  \<open>false\<close>. After \<open>reconnect()\<close>, the new transport's open and the former transport's close
  event, the state is \<open>RECONNECTING\<close> and the transport open: the object is transmitted,
  where the claim has it queued.
\<close>

theorem send_three_ways_counterexample:
  \<open>state closed_with_open_transport = CLOSED \<and>
   ws closed_with_open_transport = Some WS_OPEN \<and>
   send demo_platform chat closed_with_open_transport =
     (True, closed_with_open_transport
        \<lparr>trace := trace closed_with_open_transport @
                    [WsSend (JStr ''{"type":"chat","msg":"hi"}'')]\<rparr>) \<and>
   state reconnecting_with_open_transport = RECONNECTING \<and>
   ws reconnecting_with_open_transport = Some WS_OPEN \<and>
   send demo_platform chat reconnecting_with_open_transport =
     (True, reconnecting_with_open_transport
        \<lparr>trace := trace reconnecting_with_open_transport @
                    [WsSend (JStr ''{"type":"chat","msg":"hi"}'')]\<rparr>) \<and>
   messageQueue (snd (send demo_platform chat reconnecting_with_open_transport)) = []\<close>
proof -
  have c: "state closed_with_open_transport = CLOSED"
    "ws closed_with_open_transport = Some WS_OPEN"
    by (simp_all add: closed_with_open_transport_def demo_platform_def engine_defs)
  have r: "state reconnecting_with_open_transport = RECONNECTING"
    "ws reconnecting_with_open_transport = Some WS_OPEN"
    "messageQueue reconnecting_with_open_transport = []"
    by (simp_all add: reconnecting_with_open_transport_def demo_platform_def engine_defs)
  have p: \<open>prepareMessage demo_platform chat = Inr (JStr ''{"type":"chat","msg":"hi"}'')\<close>
    \<open>\<not> ws_send_throws demo_platform (JStr ''{"type":"chat","msg":"hi"}'')\<close>
    by (simp_all add: prepareMessage_def chat_def demo_platform_def)
  have \<open>send demo_platform chat s =
          (True, s\<lparr>trace := trace s @ [WsSend (JStr ''{"type":"chat","msg":"hi"}'')]\<rparr>)\<close>
    if "ws s = Some WS_OPEN" for s
    using that p by (simp add: send_def act_def)
  with c r show ?thesis by simp
qed

subsection \<open>Draining the queue when the transport opens\<close>

lemma exec_append: "exec P (xs @ ys) s = exec P ys (exec P xs s)"
  by (induction xs arbitrary: s) simp_all

lemma exec_sends:
  assumes "ws s \<noteq> Some WS_OPEN" "state s = CONNECTING \<or> state s = RECONNECTING"
  shows "exec P (map Send ps) s = s\<lparr>messageQueue := messageQueue s @ ps\<rparr>"
  using assms
proof (induction ps arbitrary: s)
  case Nil
  show ?case by simp
next
  case (Cons p ps)
  let ?t = "s\<lparr>messageQueue := messageQueue s @ [p]\<rparr>"
  from Cons.prems have "step P (Send p) s = ?t" by (auto simp: send_def)
  moreover from Cons.prems have "exec P (map Send ps) ?t = ?t\<lparr>messageQueue := messageQueue ?t @ ps\<rparr>"
    by (intro Cons.IH) simp_all
  ultimately show ?case by simp
qed

lemma send_open_trace:
  assumes "ws s = Some WS_OPEN"
  shows "snd (send P d s) = s\<lparr>trace := trace s @ drain_actions P [d]\<rparr>"
  using assms by (simp add: send_def wire_def emit_def act_def split: sum.splits)

lemma forEach_send_open:
  assumes "ws s = Some WS_OPEN"
  shows "forEach_send P q s = s\<lparr>trace := trace s @ drain_actions P q\<rparr>"
  using assms
proof (induction q arbitrary: s)
  case Nil
  show ?case by simp
next
  case (Cons d q)
  let ?t = "s\<lparr>trace := trace s @ drain_actions P [d]\<rparr>"
  have "forEach_send P q ?t = ?t\<lparr>trace := trace ?t @ drain_actions P q\<rparr>"
    using Cons.prems by (intro Cons.IH) simp
  then show ?case
    by (simp add: send_open_trace [OF Cons.prems])
qed

lemma processMessageQueue_open:
  assumes "ws s = Some WS_OPEN"
  shows "processMessageQueue P s =
           s\<lparr>trace := trace s @ drain_actions P (messageQueue s), messageQueue := []\<rparr>"
  by (cases "messageQueue s") (simp_all add: processMessageQueue_def forEach_send_open [OF assms])

lemma drain_actions_phase: "a \<in> set (drain_actions P q) \<Longrightarrow> onopen_phase a = 1"
  by (induction q) (auto split: option.splits)

lemma transmitted_append [simp]: "transmitted (t @ u) = transmitted t @ transmitted u"
  by (induction t rule: transmitted.induct) simp_all

lemma transmitted_drain: "transmitted (drain_actions P q) = wires P q"
  by (induction q) (simp_all split: option.splits)

lemma transmitted_other: "\<forall>a\<in>set X. onopen_phase a \<noteq> 1 \<Longrightarrow> transmitted X = []"
  by (induction X rule: transmitted.induct) simp_all

lemma wires_all:
  "\<forall>d\<in>set q. wire P d \<noteq> None \<Longrightarrow> wires P q = map (\<lambda>d. the (wire P d)) q"
  by (induction q) auto

lemma adds_refl: "adds k s s"
  by (simp add: adds_def)

lemma adds_trans: "adds k s t \<Longrightarrow> adds k t u \<Longrightarrow> adds k s u"
  unfolding adds_def by (elim conjE exE) (auto intro!: exI [of _ "_ @ _"])

lemma adds_act: "onopen_phase a = k \<Longrightarrow> adds k s (act a s)"
  by (simp add: adds_def act_def)

lemma adds_clearConnectionTimeout: "adds 0 s (clearConnectionTimeout s)"
  by (simp add: adds_def clearConnectionTimeout_def act_def split: option.splits)

lemma adds_set_connection_state: "adds 0 s (set_connection_state n s)"
  by (simp add: adds_def set_connection_state_def status_callback_def emit_def act_def
        split: option.splits outcome.splits)

lemma adds_resetHeartbeatTimeout: "adds 2 s (resetHeartbeatTimeout s)"
  by (simp add: adds_def resetHeartbeatTimeout_def act_def split: option.splits)

lemma adds_clearHeartbeatTimers: "adds 2 s (clearHeartbeatTimers s)"
proof -
  have "adds 2 s (case heartbeatTimer s of None \<Rightarrow> s
          | Some t \<Rightarrow> act (ClearTimer HeartbeatTimer) (s\<lparr>heartbeatTimer := None\<rparr>))"
    by (simp add: adds_def act_def split: option.splits)
  then show ?thesis
    unfolding clearHeartbeatTimers_def Let_def
    by (rule adds_trans) (rule adds_resetHeartbeatTimeout)
qed

lemma clearHeartbeatTimers_heartbeatTimer [simp]:
  "heartbeatTimer (clearHeartbeatTimers s) = None"
  by (simp add: clearHeartbeatTimers_def resetHeartbeatTimeout_def act_def split: option.splits)

lemma startHeartbeat_trace:
  "\<exists>X. trace (startHeartbeat s) = trace s @ X \<and> (\<forall>a\<in>set X. onopen_phase a = 2) \<and>
       (positive (heartbeatInterval (options s)) \<longrightarrow>
          SetTimer HeartbeatTimer (the (heartbeatInterval (options s))) \<in> set X)"
  and startHeartbeat_queue: "messageQueue (startHeartbeat s) = messageQueue s"
  and startHeartbeat_timer:
    "heartbeatTimer (startHeartbeat s) =
       (if positive (heartbeatInterval (options s)) then Some Pending else None)"
proof -
  let ?c = "clearHeartbeatTimers s"
  from adds_clearHeartbeatTimers [of s] obtain Y where
    Y: "trace ?c = trace s @ Y" "\<forall>a\<in>set Y. onopen_phase a = 2" "messageQueue ?c = messageQueue s"
    by (auto simp: adds_def)
  show "messageQueue (startHeartbeat s) = messageQueue s"
    using Y by (simp add: startHeartbeat_def Let_def act_def)
  show "heartbeatTimer (startHeartbeat s) =
       (if positive (heartbeatInterval (options s)) then Some Pending else None)"
    by (simp add: startHeartbeat_def Let_def act_def)
  show "\<exists>X. trace (startHeartbeat s) = trace s @ X \<and> (\<forall>a\<in>set X. onopen_phase a = 2) \<and>
       (positive (heartbeatInterval (options s)) \<longrightarrow>
          SetTimer HeartbeatTimer (the (heartbeatInterval (options s))) \<in> set X)"
  proof (cases "positive (heartbeatInterval (options s))")
    case True
    then have "trace (startHeartbeat s) =
        trace s @ (Y @ [SetTimer HeartbeatTimer (the (heartbeatInterval (options s)))])"
      using Y by (simp add: startHeartbeat_def Let_def)
    with Y True show ?thesis by (intro exI [of _ "Y @ [_]"]) auto
  next
    case False
    then have "trace (startHeartbeat s) = trace s @ Y"
      using Y by (simp add: startHeartbeat_def Let_def)
    with Y False show ?thesis by (intro exI [of _ Y]) simp
  qed
qed

lemma onopen_trace:
  assumes "ws s = Some WS_OPEN"
  shows "\<exists>A0 A2 A3.
           trace (onopen P s) = trace s @ A0 @ drain_actions P (messageQueue s) @ A2 @ A3 \<and>
           (\<forall>a\<in>set A0. onopen_phase a = 0) \<and> (\<forall>a\<in>set A2. onopen_phase a = 2) \<and>
           (\<forall>a\<in>set A3. onopen_phase a = 3) \<and>
           (positive (heartbeatInterval (options s)) \<longrightarrow>
              SetTimer HeartbeatTimer (the (heartbeatInterval (options s))) \<in> set A2) \<and>
           (onOpen (options s) \<noteq> Some Throws \<longrightarrow> Publish Open_event \<in> set A3)"
    and onopen_queue: "messageQueue (onopen P s) = []"
    and onopen_timer:
      "heartbeatTimer (onopen P s) =
         (if positive (heartbeatInterval (options s)) then Some Pending else None)"
proof -
  let ?s2 = "set_connection_state OPEN (clearConnectionTimeout s)"
  let ?s3 = "?s2\<lparr>reconnectCount := 0, currentBackoff := 0\<rparr>"
  let ?s4 = "processMessageQueue P ?s3"
  let ?s5 = "startHeartbeat ?s4"
  have "adds 0 s ?s2"
    by (rule adds_trans [OF adds_clearConnectionTimeout adds_set_connection_state])
  then obtain A0 where A0: "trace ?s2 = trace s @ A0" "\<forall>a\<in>set A0. onopen_phase a = 0"
    and same: "messageQueue ?s2 = messageQueue s" "ws ?s2 = ws s" "options ?s2 = options s"
    by (auto simp: adds_def)
  have s4: "?s4 = ?s3\<lparr>trace := trace ?s3 @ drain_actions P (messageQueue ?s3), messageQueue := []\<rparr>"
    by (rule processMessageQueue_open) (simp add: same assms)
  have t4: "trace ?s4 = trace s @ A0 @ drain_actions P (messageQueue s)"
    and o4: "options ?s4 = options s" and q4: "messageQueue ?s4 = []"
    by (simp_all add: s4 A0 same)
  from startHeartbeat_trace [of ?s4] obtain A2 where
    A2: "trace ?s5 = trace ?s4 @ A2" "\<forall>a\<in>set A2. onopen_phase a = 2"
      "positive (heartbeatInterval (options s)) \<longrightarrow>
         SetTimer HeartbeatTimer (the (heartbeatInterval (options s))) \<in> set A2"
    unfolding o4 by blast
  have o5: "options ?s5 = options s" by (simp add: o4)
  have q5: "messageQueue ?s5 = []" by (simp add: startHeartbeat_queue q4)
  have h5: "heartbeatTimer ?s5 =
      (if positive (heartbeatInterval (options s)) then Some Pending else None)"
    by (simp add: startHeartbeat_timer o4)
  have fin: "onopen P s =
      (case onOpen (options s) of
         None \<Rightarrow> emit Open_event ?s5
       | Some Returns \<Rightarrow> emit Open_event (act CallOnOpen ?s5)
       | Some Throws \<Rightarrow> act Uncaught (act CallOnOpen ?s5))"
    by (simp add: onopen_def Let_def o5)
  show "messageQueue (onopen P s) = []"
    by (simp add: fin q5 split: option.splits outcome.splits)
  show "heartbeatTimer (onopen P s) =
         (if positive (heartbeatInterval (options s)) then Some Pending else None)"
    using h5 by (simp add: fin split: option.splits outcome.splits)
  obtain A3 where A3: "trace (onopen P s) = trace ?s5 @ A3" "\<forall>a\<in>set A3. onopen_phase a = 3"
    "onOpen (options s) \<noteq> Some Throws \<longrightarrow> Publish Open_event \<in> set A3"
  proof (cases "onOpen (options s)")
    case None
    then show ?thesis by (intro that [of "[Publish Open_event]"]) (simp_all add: fin)
  next
    case (Some r)
    then show ?thesis
      by (cases r; intro that [of "[CallOnOpen, Publish Open_event]"] that [of "[CallOnOpen, Uncaught]"])
         (simp_all add: fin)
  qed
  have "trace (onopen P s) = trace s @ A0 @ drain_actions P (messageQueue s) @ A2 @ A3"
    by (simp add: A3 A2 t4)
  with A0 A2 A3 show "\<exists>A0 A2 A3.
           trace (onopen P s) = trace s @ A0 @ drain_actions P (messageQueue s) @ A2 @ A3 \<and>
           (\<forall>a\<in>set A0. onopen_phase a = 0) \<and> (\<forall>a\<in>set A2. onopen_phase a = 2) \<and>
           (\<forall>a\<in>set A3. onopen_phase a = 3) \<and>
           (positive (heartbeatInterval (options s)) \<longrightarrow>
              SetTimer HeartbeatTimer (the (heartbeatInterval (options s))) \<in> set A2) \<and>
           (onOpen (options s) \<noteq> Some Throws \<longrightarrow> Publish Open_event \<in> set A3)"
    by blast
qed

lemma onopen_ws: "ws (onopen P s) = ws s"
  by (simp add: onopen_def Let_def split: option.splits outcome.splits)

lemma filter_phase_other:
  "\<forall>a\<in>set X. onopen_phase a = k \<Longrightarrow> k \<noteq> 1 \<Longrightarrow> filter (\<lambda>a. onopen_phase a = 1) X = []"
  by (induction X) auto

lemma filter_phase_drain:
  "filter (\<lambda>a. onopen_phase a = 1) (drain_actions P q) = drain_actions P q"
  by (induction q) (auto split: option.splits)

lemma map_phase_const: "\<forall>a\<in>set X. onopen_phase a = k \<Longrightarrow> map onopen_phase X = replicate (length X) k"
  by (induction X) auto

lemma sorted_phase_const: "\<forall>a\<in>set X. onopen_phase a = k \<Longrightarrow> sorted (map onopen_phase X)"
  by (induction X) auto

lemma open_event:
  assumes t: "trace t = trace s @ X0" "\<forall>a\<in>set X0. onopen_phase a = 0" "ws t = Some WS_OPEN"
  shows "filter (\<lambda>a. onopen_phase a = 1) (since s (onopen P t)) = drain_actions P (messageQueue t)"
    and "transmitted (since s (onopen P t)) = wires P (messageQueue t)"
    and "sorted (map onopen_phase (since s (onopen P t)))"
    and "positive (heartbeatInterval (options t)) \<longrightarrow>
           SetTimer HeartbeatTimer (the (heartbeatInterval (options t))) \<in> set (since s (onopen P t))"
    and "onOpen (options t) \<noteq> Some Throws \<longrightarrow> Publish Open_event \<in> set (since s (onopen P t))"
proof -
  from onopen_trace [OF t(3), of P] obtain A0 A2 A3 where
    tr: "trace (onopen P t) = trace t @ A0 @ drain_actions P (messageQueue t) @ A2 @ A3"
    and A0: "\<forall>a\<in>set A0. onopen_phase a = 0" and A2: "\<forall>a\<in>set A2. onopen_phase a = 2"
    and A3: "\<forall>a\<in>set A3. onopen_phase a = 3"
    and hb: "positive (heartbeatInterval (options t)) \<longrightarrow>
              SetTimer HeartbeatTimer (the (heartbeatInterval (options t))) \<in> set A2"
    and op: "onOpen (options t) \<noteq> Some Throws \<longrightarrow> Publish Open_event \<in> set A3"
    by blast
  let ?D = "drain_actions P (messageQueue t)"
  have new: "since s (onopen P t) = X0 @ A0 @ ?D @ A2 @ A3"
    by (simp add: since_def tr t(1))
  have D: "\<forall>a\<in>set ?D. onopen_phase a = 1"
    by (simp add: drain_actions_phase)
  have f: "filter (\<lambda>a. onopen_phase a = 1) X0 = []" "filter (\<lambda>a. onopen_phase a = 1) A0 = []"
    "filter (\<lambda>a. onopen_phase a = 1) A2 = []" "filter (\<lambda>a. onopen_phase a = 1) A3 = []"
    by (rule filter_phase_other [OF t(2)], simp, rule filter_phase_other [OF A0], simp,
        rule filter_phase_other [OF A2], simp, rule filter_phase_other [OF A3], simp)
  show "filter (\<lambda>a. onopen_phase a = 1) (since s (onopen P t)) = ?D"
    by (simp only: new filter_append f filter_phase_drain append_Nil append_Nil2)
  have none: "transmitted X0 = []" "transmitted A0 = []" "transmitted A2 = []" "transmitted A3 = []"
    using t(2) A0 A2 A3 by (simp_all add: transmitted_other)
  show "transmitted (since s (onopen P t)) = wires P (messageQueue t)"
    by (simp add: new none transmitted_drain)
  show "sorted (map onopen_phase (since s (onopen P t)))"
    using t(2) A0 A2 A3 D
      sorted_phase_const [OF t(2)] sorted_phase_const [OF A0] sorted_phase_const [OF A2]
      sorted_phase_const [OF A3] sorted_phase_const [OF D]
    by (auto simp: new sorted_append)
  show "positive (heartbeatInterval (options t)) \<longrightarrow>
           SetTimer HeartbeatTimer (the (heartbeatInterval (options t))) \<in> set (since s (onopen P t))"
    using hb by (simp add: new)
  show "onOpen (options t) \<noteq> Some Throws \<longrightarrow> Publish Open_event \<in> set (since s (onopen P t))"
    using op by (simp add: new)
qed

lemma connect_trace:
  assumes "\<not> WebSocket_throws P (url (options s))"
  shows "\<exists>X. trace (connect P s) = trace s @ X \<and> (\<forall>a\<in>set X. onopen_phase a = 0)"
    and "ws (connect P s) = Some WS_CONNECTING"
    and "messageQueue (connect P s) = messageQueue s"
    and "options (connect P s) = options s"
proof -
  let ?s2 = "set_connection_state CONNECTING (clearConnectionTimeout s)"
  have "adds 0 s ?s2"
    by (rule adds_trans [OF adds_clearConnectionTimeout adds_set_connection_state])
  then obtain X where X: "trace ?s2 = trace s @ X" "\<forall>a\<in>set X. onopen_phase a = 0"
    by (auto simp: adds_def)
  show "ws (connect P s) = Some WS_CONNECTING" "messageQueue (connect P s) = messageQueue s"
    "options (connect P s) = options s"
    using assms by (simp_all add: connect_def Let_def)
  show "\<exists>X. trace (connect P s) = trace s @ X \<and> (\<forall>a\<in>set X. onopen_phase a = 0)"
  proof (cases "positive (connectionTimeout (options s))")
    case True
    with assms X have "trace (connect P s) =
        trace s @ (X @ [NewWebSocket (url (options s)),
                        SetTimer ConnectionTimeoutTimer (the (connectionTimeout (options s)))])"
      by (simp add: connect_def Let_def)
    with X show ?thesis by (intro exI [of _ "X @ [_, _]"]) auto
  next
    case False
    with assms X have "trace (connect P s) = trace s @ (X @ [NewWebSocket (url (options s))])"
      by (simp add: connect_def Let_def)
    with X show ?thesis by (intro exI [of _ "X @ [_]"]) auto
  qed
qed

lemma sends_then_open_run:
  assumes "ws s = Some WS_CONNECTING" "state s = CONNECTING \<or> state s = RECONNECTING"
  shows "exec P (sends_then_open ps) s =
           onopen P (s\<lparr>messageQueue := messageQueue s @ ps, ws := Some WS_OPEN\<rparr>)"
proof -
  have "exec P (map Send ps) s = s\<lparr>messageQueue := messageQueue s @ ps\<rparr>"
    using assms by (intro exec_sends) simp_all
  then show ?thesis
    using assms by (simp add: sends_then_open_def exec_append)
qed

lemma sends_then_reconnect_run:
  assumes "state s = RECONNECTING" "ws s \<noteq> Some WS_OPEN" "0 < reconnectTimers s"
  shows "exec P (sends_then_reconnect ps) s =
           onopen P ((connect P (s\<lparr>messageQueue := messageQueue s @ ps,
                                   reconnectTimers := reconnectTimers s - 1\<rparr>))
                     \<lparr>ws := map_option (\<lambda>x. WS_OPEN)
                        (ws (connect P (s\<lparr>messageQueue := messageQueue s @ ps,
                                           reconnectTimers := reconnectTimers s - 1\<rparr>)))\<rparr>)"
proof -
  have "exec P (map Send ps) s = s\<lparr>messageQueue := messageQueue s @ ps\<rparr>"
    using assms by (intro exec_sends) simp_all
  then show ?thesis
    using assms by (simp add: sends_then_reconnect_def exec_append)
qed

text \<open>
  Claim C5, as amended. Payloads sent while the state is \<open>CONNECTING\<close> or \<open>RECONNECTING\<close> and the
  transport is not open are only queued. When the transport that the socket holds then
  opens (in state \<open>RECONNECTING\<close>: after the reconnect timer has fired and \<open>connect()\<close> has
  created it), the open event sends each queued payload once, in queue order: what reaches
  the transport is the queue's payloads in that order, all of them unless preparing or
  sending one throws, which is reported for that payload and does not stop the drain. The
  queue is empty afterwards, so another open event transmits nothing. Within the event the
  actions come in phases: state transition, then the drain, then the heartbeat start, then
  the \<open>onOpen\<close> callback and the \<open>open\<close> publication.
\<close>

theorem queue_drained_on_open:
  "(ws s = Some WS_CONNECTING \<and> (state s = CONNECTING \<or> state s = RECONNECTING) \<longrightarrow>
      exec P (map Send ps) s = s\<lparr>messageQueue := messageQueue s @ ps\<rparr> \<and>
      filter (\<lambda>a. onopen_phase a = 1) (since s (exec P (sends_then_open ps) s)) =
        drain_actions P (messageQueue s @ ps) \<and>
      transmitted (since s (exec P (sends_then_open ps) s)) = wires P (messageQueue s @ ps) \<and>
      ((\<forall>d\<in>set (messageQueue s @ ps). wire P d \<noteq> None) \<longrightarrow>
         transmitted (since s (exec P (sends_then_open ps) s)) =
           map (\<lambda>d. the (wire P d)) (messageQueue s @ ps)) \<and>
      messageQueue (exec P (sends_then_open ps) s) = [] \<and>
      transmitted (since (exec P (sends_then_open ps) s)
                     (step P TransportOpen (exec P (sends_then_open ps) s))) = [] \<and>
      sorted (map onopen_phase (since s (exec P (sends_then_open ps) s))) \<and>
      (positive (heartbeatInterval (options s)) \<longrightarrow>
         heartbeatTimer (exec P (sends_then_open ps) s) = Some Pending \<and>
         SetTimer HeartbeatTimer (the (heartbeatInterval (options s)))
           \<in> set (since s (exec P (sends_then_open ps) s))) \<and>
      (onOpen (options s) \<noteq> Some Throws \<longrightarrow>
         Publish Open_event \<in> set (since s (exec P (sends_then_open ps) s)))) \<and>
   (state s = RECONNECTING \<and> ws s \<noteq> Some WS_OPEN \<and> 0 < reconnectTimers s \<and>
    \<not> WebSocket_throws P (url (options s)) \<longrightarrow>
      exec P (map Send ps) s = s\<lparr>messageQueue := messageQueue s @ ps\<rparr> \<and>
      transmitted (since s (exec P (sends_then_reconnect ps) s)) = wires P (messageQueue s @ ps) \<and>
      messageQueue (exec P (sends_then_reconnect ps) s) = [] \<and>
      sorted (map onopen_phase (since s (exec P (sends_then_reconnect ps) s))))"
proof (intro conjI impI)
  assume a: "ws s = Some WS_CONNECTING \<and> (state s = CONNECTING \<or> state s = RECONNECTING)"
  let ?t = "s\<lparr>messageQueue := messageQueue s @ ps, ws := Some WS_OPEN\<rparr>"
  let ?u = "exec P (sends_then_open ps) s"
  have u: "?u = onopen P ?t"
    using a by (intro sends_then_open_run) simp_all
  have t: "trace ?t = trace s @ []" "\<forall>a\<in>set []. onopen_phase a = 0" "ws ?t = Some WS_OPEN"
    by simp_all
  note ev = open_event [OF t, of P]
  show "exec P (map Send ps) s = s\<lparr>messageQueue := messageQueue s @ ps\<rparr>"
    using a by (intro exec_sends) auto
  show "filter (\<lambda>a. onopen_phase a = 1) (since s ?u) = drain_actions P (messageQueue s @ ps)"
    using ev(1) by (simp add: u)
  show tr: "transmitted (since s ?u) = wires P (messageQueue s @ ps)"
    using ev(2) by (simp add: u)
  show "transmitted (since s ?u) = map (\<lambda>d. the (wire P d)) (messageQueue s @ ps)"
    if "\<forall>d\<in>set (messageQueue s @ ps). wire P d \<noteq> None"
    using wires_all [OF that] tr by simp
  show q: "messageQueue ?u = []"
    by (simp add: u onopen_queue)
  show "sorted (map onopen_phase (since s ?u))"
    using ev(3) by (simp add: u)
  show "heartbeatTimer ?u = Some Pending"
    and "SetTimer HeartbeatTimer (the (heartbeatInterval (options s))) \<in> set (since s ?u)"
    if "positive (heartbeatInterval (options s))"
    using that ev(4) by (simp_all add: u onopen_timer)
  show "Publish Open_event \<in> set (since s ?u)" if "onOpen (options s) \<noteq> Some Throws"
    using that ev(5) by (simp add: u)
  show "transmitted (since ?u (step P TransportOpen ?u)) = []"
  proof (cases "ws ?u = Some WS_OPEN")
    case True
    have "transmitted (since ?u (onopen P ?u)) = wires P (messageQueue ?u)"
      by (rule open_event(2) [of ?u ?u "[]"]) (simp_all add: True)
    then show ?thesis by (simp add: q)
  next
    case False
    have "ws ?u = Some WS_OPEN"
      unfolding u by (simp add: onopen_ws)
    with False show ?thesis by simp
  qed
next
  assume b: "state s = RECONNECTING \<and> ws s \<noteq> Some WS_OPEN \<and> 0 < reconnectTimers s \<and>
    \<not> WebSocket_throws P (url (options s))"
  let ?r = "s\<lparr>messageQueue := messageQueue s @ ps, reconnectTimers := reconnectTimers s - 1\<rparr>"
  let ?c = "connect P ?r"
  let ?t = "?c\<lparr>ws := map_option (\<lambda>x. WS_OPEN) (ws ?c)\<rparr>"
  let ?u = "exec P (sends_then_reconnect ps) s"
  have u: "?u = onopen P ?t"
    using b by (intro sends_then_reconnect_run) simp_all
  have nt: "\<not> WebSocket_throws P (url (options ?r))" using b by simp
  from connect_trace(1) [OF nt] obtain X where
    X: "trace ?c = trace s @ X" "\<forall>a\<in>set X. onopen_phase a = 0"
    by auto
  have t: "trace ?t = trace s @ X" "ws ?t = Some WS_OPEN" "messageQueue ?t = messageQueue s @ ps"
    using X connect_trace(2,3) [OF nt] by simp_all
  note ev = open_event [OF t(1) X(2) t(2), of P]
  show "exec P (map Send ps) s = s\<lparr>messageQueue := messageQueue s @ ps\<rparr>"
    using b by (intro exec_sends) auto
  have q: "messageQueue ?c = messageQueue s @ ps"
    using connect_trace(3) [OF nt] by simp
  show "transmitted (since s ?u) = wires P (messageQueue s @ ps)"
    using ev(2) q by (simp add: u)
  show "messageQueue ?u = []"
    unfolding u by (rule onopen_queue [OF t(2)])
  show "sorted (map onopen_phase (since s ?u))"
    using ev(3) by (simp add: u)
qed

text \<open>
  Two strings and the chat object are sent to a connecting socket, then the transport
  opens: the three go out in that order, then the heartbeat timer is set, then \<open>open\<close> is
  published. On the socket that waits for its reconnect timer the same three go out once
  the timer has fired and the new transport has opened.
\<close>

theorem queue_drained_on_open_witness:
  \<open>ws connecting_socket = Some WS_CONNECTING \<and> state connecting_socket = CONNECTING \<and>
   wire demo_platform (JStr ''a'') \<noteq> None \<and> wire demo_platform (JStr ''b'') \<noteq> None \<and>
   wire demo_platform chat \<noteq> None \<and>
   positive (heartbeatInterval (options connecting_socket)) \<and>
   onOpen (options connecting_socket) \<noteq> Some Throws \<and>
   messageQueue (exec demo_platform (map Send [JStr ''a'', JStr ''b'', chat]) connecting_socket) =
     [JStr ''a'', JStr ''b'', chat] \<and>
   since connecting_socket
       (exec demo_platform (sends_then_open [JStr ''a'', JStr ''b'', chat]) connecting_socket) =
     [ClearTimer ConnectionTimeoutTimer, Publish (StatusChange OPEN CONNECTING),
      WsSend (JStr ''a''), WsSend (JStr ''b''), WsSend (JStr ''{"type":"chat","msg":"hi"}''),
      SetTimer HeartbeatTimer 30000, Publish Open_event] \<and>
   messageQueue
       (exec demo_platform (sends_then_open [JStr ''a'', JStr ''b'', chat]) connecting_socket) = [] \<and>
   state reconnecting_socket = RECONNECTING \<and> ws reconnecting_socket \<noteq> Some WS_OPEN \<and>
   0 < reconnectTimers reconnecting_socket \<and>
   \<not> WebSocket_throws demo_platform (url (options reconnecting_socket)) \<and>
   transmitted (since reconnecting_socket
       (exec demo_platform (sends_then_reconnect [JStr ''a'', JStr ''b'', chat]) reconnecting_socket)) =
     [JStr ''a'', JStr ''b'', JStr ''{"type":"chat","msg":"hi"}'']\<close>
proof -
  have c: "ws connecting_socket = Some WS_CONNECTING" "state connecting_socket = CONNECTING"
    "messageQueue connecting_socket = []"
    "positive (heartbeatInterval (options connecting_socket))"
    "onOpen (options connecting_socket) \<noteq> Some Throws"
    by (simp_all add: connecting_socket_def demo_platform_def engine_defs)
  have r: "state reconnecting_socket = RECONNECTING" "ws reconnecting_socket \<noteq> Some WS_OPEN"
    "0 < reconnectTimers reconnecting_socket" "messageQueue reconnecting_socket = []"
    "\<not> WebSocket_throws demo_platform (url (options reconnecting_socket))"
    by (simp_all add: reconnecting_socket_def failure_def demo_platform_def engine_defs)
  have w: \<open>wire demo_platform (JStr ''a'') = Some (JStr ''a'')\<close>
    \<open>wire demo_platform (JStr ''b'') = Some (JStr ''b'')\<close>
    \<open>wire demo_platform chat = Some (JStr ''{"type":"chat","msg":"hi"}'')\<close>
    by (simp_all add: wire_def prepareMessage_def chat_def demo_platform_def)
  have n: \<open>since connecting_socket
       (exec demo_platform (sends_then_open [JStr ''a'', JStr ''b'', chat]) connecting_socket) =
     [ClearTimer ConnectionTimeoutTimer, Publish (StatusChange OPEN CONNECTING),
      WsSend (JStr ''a''), WsSend (JStr ''b''), WsSend (JStr ''{"type":"chat","msg":"hi"}''),
      SetTimer HeartbeatTimer 30000, Publish Open_event]\<close>
    by (simp add: since_def sends_then_open_def connecting_socket_def chat_def demo_platform_def
          engine_defs)
  from queue_drained_on_open [of connecting_socket demo_platform "[JStr ''a'', JStr ''b'', chat]"]
       queue_drained_on_open [of reconnecting_socket demo_platform "[JStr ''a'', JStr ''b'', chat]"]
       c r w n
  show ?thesis by simp
qed

text \<open>
  The claim as stated fails for a payload that cannot be serialised: \<open>send(10n)\<close> on a
  connecting socket is accepted and queued, and when the transport opens \<open>JSON.stringify\<close>
  throws on it, a send error is published, nothing is transmitted and the queue is emptied.
\<close>

theorem queue_drained_on_open_counterexample:
  "send demo_platform (JBigInt 10) connecting_socket =
     (True, connecting_socket\<lparr>messageQueue := [JBigInt 10]\<rparr>) \<and>
   since connecting_socket
       (exec demo_platform (sends_then_open [JBigInt 10]) connecting_socket) =
     [ClearTimer ConnectionTimeoutTimer, Publish (StatusChange OPEN CONNECTING),
      Publish (SendError (JBigInt 10)), SetTimer HeartbeatTimer 30000, Publish Open_event] \<and>
   transmitted (since connecting_socket
       (exec demo_platform (sends_then_open [JBigInt 10]) connecting_socket)) = [] \<and>
   messageQueue (exec demo_platform (sends_then_open [JBigInt 10]) connecting_socket) = []"
  by (simp add: since_def sends_then_open_def connecting_socket_def demo_platform_def engine_defs)

subsection \<open>Pong messages\<close>






lemma message_publications_append [simp]:
  "message_publications (t @ u) = message_publications t @ message_publications u"
  by (induction t rule: message_publications.induct) simp_all






subsection \<open>\<open>once\<close>\<close>

lemma emit_times_no_listener:
  "events b event = None \<Longrightarrow> calls_of i (emit_times behaviour event ds b) = calls_of i b"
proof (induction ds arbitrary: b)
  case Nil
  show ?case by simp
next
  case (Cons d ds)
  from Cons.prems have "snd (EventBus_emit behaviour event d b) = b"
    by (simp add: EventBus_emit_def)
  with Cons show ?case by simp
qed

text \<open>
  A callback registered with \<open>once\<close> that returns normally is called once, however often
  the event is published afterwards.
\<close>

lemma once_returning_called_once:
  assumes "\<And>d. behaviour i d = Returns"
  shows "calls_of i (emit_times behaviour event ds (once event i new_EventBus)) \<le> 1"
proof (cases ds)
  case Nil
  then show ?thesis
    by (simp add: once_def new_EventBus_def EventBus_on_def calls_of_def)
next
  case (Cons d rest)
  let ?b = "snd (EventBus_emit behaviour event d (once event i new_EventBus))"
  have gone: "events ?b event = None" and one: "calls_of i ?b = 1"
    using assms
    by (simp_all add: once_def new_EventBus_def EventBus_on_def EventBus_emit_def try_invoke_def
          call_user_def EventBus_off_def calls_of_def)
  from emit_times_no_listener [OF gone, of i behaviour rest] one Cons show ?thesis by simp
qed

text \<open>
  Claim C8 fails on the code. A callback registered with \<open>once\<close> that throws is not
  unsubscribed, because the wrapper calls \<open>off\<close> after the callback and the exception skips
  it: published twice, the event calls the callback twice.
\<close>

theorem once_throwing_called_twice:
  "calls_of 7
     (emit_times throwing ''message'' [JStr ''first'', JStr ''second'']
        (once ''message'' 7 new_EventBus)) = 2 \<and>
   hasListeners ''message''
     (emit_times throwing ''message'' [JStr ''first'', JStr ''second'']
        (once ''message'' 7 new_EventBus)) \<and>
   calls_of 7
     (emit_times returning ''message'' [JStr ''first'', JStr ''second'']
        (once ''message'' 7 new_EventBus)) = 1"
  by (simp add: throwing_def returning_def once_def new_EventBus_def EventBus_on_def
        EventBus_emit_def try_invoke_def call_user_def EventBus_off_def calls_of_def
        hasListeners_def)

end
